theory Spec2Isabelle
  imports Complex_Main "HOL-Library.Word" "HOL-Library.Log_Nat"
begin

section \<open>StockFlow: the order and stock-adjustment engine\<close>

text \<open>
  A shallow embedding of \<^verbatim>\<open>controllers/orderController.ts\<close>,
  \<^verbatim>\<open>controllers/inventoryController.ts\<close>, \<^verbatim>\<open>utils/socket.ts\<close> and of
  \<^verbatim>\<open>updateProduct\<close> of the product controller.

  Conventions of the embedding:
  \<^item> a table of the store is the list of its rows; \<^verbatim>\<open>findUnique\<close> is \<open>find\<close>,
    \<^verbatim>\<open>findMany\<close> is \<open>filter\<close>, \<^verbatim>\<open>update\<close> rewrites the rows with the given key and
    throws when there is none; an Order row carries its OrderItem rows (the nested
    \<^verbatim>\<open>create\<close> of the source);
  \<^item> an exception is a value \<open>Inl e\<close>; a transaction that throws leaves the store as it
    was before it started;
  \<^item> a handler returns the HTTP response, the store after the request, the events that
    reached the listener transport and what \<^verbatim>\<open>console.error\<close> wrote (message and
    error);
  \<^item> the quantity of a line is an integer (the schema's \<^verbatim>\<open>int()\<close>), held in a JavaScript
    number; the sums that the controllers compute with \<^verbatim>\<open>+\<close> are JavaScript numbers
    (\<open>js_number\<close>) and round as binary64 does (\<open>round_double\<close>);
  \<^item> the integer columns of the store are 32-bit signed integers: \<open>stockLevel\<close> is read
    from a \<open>32 word\<close>, and a write of a value that does not fit throws;
  \<^item> prices and totals are exact decimals (\<open>real\<close>), added in the order of the lines as
    the source adds them: the rounding of the binary64 products and sums of prices is
    outside the model;
  \<^item> what the source takes from outside is a parameter: the format check of zod's
    \<^verbatim>\<open>uuid()\<close> (\<open>isUuid\<close>), the listener transport (\<open>io\<close>), the id the store
    assigns to a new Order row (\<open>oid\<close>) and the id of the authenticated caller
    (\<open>userId\<close>, the \<^verbatim>\<open>req.user!.id\<close> of the source);
  \<^item> timestamps (\<^verbatim>\<open>createdAt\<close>, \<^verbatim>\<open>new Date()\<close>) are left out.
\<close>

subsection \<open>JavaScript numbers with integer values\<close>

text \<open>
  The value of a JavaScript number that holds an integer, an infinity or \<^verbatim>\<open>NaN\<close>. The
  integers among the binary64 numbers are the integers below \<open>2 ^ 53\<close> in absolute value
  and, beyond, the multiples of a power of two with a significand of 53 bits.
\<close>

datatype js_number = Finite int | PosInfinity | NegInfinity | NaN

text \<open>
  The binary64 number nearest to an integer, ties to the even significand; what reaches
  \<open>2 ^ 1024\<close> is an infinity.
\<close>

definition round_double :: "int \<Rightarrow> js_number" where
  "round_double n =
     (let a = \<bar>n\<bar> in
      if a < 2 ^ 53 then Finite n
      else
        let k = nat (bitlen a - 53);
            q = a div 2 ^ k;
            r = a mod 2 ^ k;
            m = (if r < 2 ^ (k - 1) \<or> (r = 2 ^ (k - 1) \<and> even q) then q else q + 1)
        in if 2 ^ 1024 \<le> m * 2 ^ k
           then (if n < 0 then NegInfinity else PosInfinity)
           else Finite (if n < 0 then - (m * 2 ^ k) else m * 2 ^ k))"

text \<open>\<^verbatim>\<open>x + y\<close> and \<^verbatim>\<open>x < y\<close> on numbers.\<close>

fun js_add :: "js_number \<Rightarrow> js_number \<Rightarrow> js_number" where
  "js_add (Finite a) (Finite b) = round_double (a + b)"
| "js_add NaN y = NaN"
| "js_add x NaN = NaN"
| "js_add PosInfinity NegInfinity = NaN"
| "js_add NegInfinity PosInfinity = NaN"
| "js_add PosInfinity y = PosInfinity"
| "js_add x PosInfinity = PosInfinity"
| "js_add NegInfinity y = NegInfinity"
| "js_add x NegInfinity = NegInfinity"

fun js_less :: "js_number \<Rightarrow> js_number \<Rightarrow> bool" where
  "js_less (Finite a) (Finite b) = (a < b)"
| "js_less NaN y = False"
| "js_less x NaN = False"
| "js_less PosInfinity y = False"
| "js_less x PosInfinity = True"
| "js_less NegInfinity NegInfinity = False"
| "js_less NegInfinity y = True"
| "js_less x NegInfinity = False"

subsection \<open>Rows, requests, responses\<close>

text \<open>
  Modelled from the spec: the schema of the store (the Prisma schema with the tables
  \<^verbatim>\<open>User\<close>, \<^verbatim>\<open>Product\<close>, \<^verbatim>\<open>Order\<close>, \<^verbatim>\<open>OrderItem\<close> and \<^verbatim>\<open>InventoryAdjustment\<close>) is not
  among the sources. The rows below have the columns that the controllers read and
  write, with the types of section 3 of the specification: opaque ids, a price that is
  a decimal, integer stock levels and quantities, the status and the adjustment type
  as closed enumerations, an Order that owns its OrderItems. An integer column is an
  \<^verbatim>\<open>Int\<close> of the schema language, a 32-bit signed integer: the column of the stock
  level, which the controllers read back and compute with, has its width in its type
  (\<open>stockLevel_Int\<close>, read as the number \<open>stockLevel\<close>), and the quantity columns, which
  are only written, are checked when a row is inserted (\<open>fits_Int\<close>).
\<close>

datatype order_status = PENDING | COMPLETED | CANCELLED

datatype adjustment_type = IN | OUT

datatype exn = ZodError | TypeError | Error string | PrismaError string

record user =
  u_id :: string
  u_name :: string
  u_email :: string

record product =
  p_id :: string
  p_name :: string
  sku :: string
  description :: "string option"
  price :: real
  stockLevel_Int :: "32 word"
  lowStockThreshold_Int :: "32 word"

definition fits_Int :: "int \<Rightarrow> bool" where
  "fits_Int n \<longleftrightarrow> - 2147483648 \<le> n \<and> n \<le> 2147483647"

text \<open>The column's value for a number in the range of \<^verbatim>\<open>Int\<close>.\<close>

definition to_Int :: "int \<Rightarrow> 32 word" where
  "to_Int n = word_of_int n"

text \<open>\<^verbatim>\<open>product.stockLevel\<close>: the number that the client reads from the column.\<close>

definition stockLevel :: "product \<Rightarrow> int" where
  "stockLevel p = sint (stockLevel_Int p)"

definition lowStockThreshold :: "product \<Rightarrow> int" where
  "lowStockThreshold p = sint (lowStockThreshold_Int p)"

record order_item =
  oi_productId :: string
  oi_quantity :: int
  priceAtTime :: real

record order =
  o_id :: string
  o_userId :: string
  status :: order_status
  totalAmount :: real
  orderItems :: "order_item list"

record inventory_adjustment =
  adj_productId :: string
  adj_userId :: string
  adj_quantity :: int
  adj_type :: adjustment_type
  reason :: "string option"

record db =
  users :: "user list"
  products :: "product list"
  orders :: "order list"
  adjustments :: "inventory_adjustment list"

text \<open>The request bodies, as typed by the zod schemas.\<close>

record order_item_input =
  productId :: string
  quantity :: int

record create_order_body =
  items :: "order_item_input list"
  status_opt :: "order_status option"

record create_adjustment_body =
  ca_productId :: string
  ca_quantity :: int
  ca_type :: adjustment_type
  ca_reason :: "string option"

record update_product_body =
  up_name :: "string option"
  up_sku :: "string option"
  up_description :: "string option"
  up_price :: "real option"
  up_stockLevel :: "int option"
  up_lowStockThreshold :: "int option"

text \<open>
  What a query with \<^verbatim>\<open>include\<close> returns: the row and the selected columns of the rows
  it refers to. A column that the query does not select is \<open>None\<close>.
\<close>

record product_info =
  pi_name :: string
  pi_sku :: string
  pi_price :: "real option"

record order_view =
  ov_order :: order
  ov_products :: "product_info option list"
  ov_user :: "user option"

record adjustment_view =
  av_adjustment :: inventory_adjustment
  av_product :: "product_info option"
  av_user :: "user option"

datatype body =
    ErrorMessage string
  | ZodIssues
  | InsufficientStockOrder string int js_number
  | InsufficientStockAdjustment int int
  | OrderJson order_view
  | AdjustmentJson adjustment_view int
  | ProductJson product

record response =
  statusCode :: nat
  json :: body

subsection \<open>Events and the listener transport\<close>

record order_created =
  ev_orderId :: string
  ev_userId :: string
  ev_userName :: string
  ev_totalAmount :: real
  ev_itemCount :: nat
  ev_status :: order_status

record stock_updated =
  ev_productId :: string
  ev_productName :: string
  ev_oldStock :: int
  ev_newStock :: int
  ev_change :: int
  ev_type :: adjustment_type
  ev_reason :: "string option"

datatype event = OrderCreated order_created | StockUpdated stock_updated

text \<open>
  The socket server is known by its \<^verbatim>\<open>emit\<close>: \<open>None\<close> when the event was handed to the
  transport, \<open>Some e\<close> when \<^verbatim>\<open>emit\<close> threw \<open>e\<close>. The module variable \<^verbatim>\<open>io\<close> is
  \<open>None\<close> until \<^verbatim>\<open>initializeSocket\<close> has run.
\<close>

type_synonym socket_server = "event \<Rightarrow> exn option"

definition getIO :: "socket_server option \<Rightarrow> exn + socket_server" where
  "getIO io = (case io of
      None \<Rightarrow> Inl (Error ''Socket.io not initialized!'')
    | Some s \<Rightarrow> Inr s)"

record outcome =
  response :: response
  store :: db
  emitted :: "event list"
  logged :: "(string \<times> exn) list"

text \<open>
  The inner \<^verbatim>\<open>try { const io = getIO(); io.emit(...) } catch (error) { console.error(...) }\<close>
  of both controllers: the events delivered and the lines logged. Building the payload
  comes after \<^verbatim>\<open>getIO()\<close> and may throw too (a property read on a missing row).
\<close>

definition try_emit ::
  "socket_server option \<Rightarrow> exn + event \<Rightarrow> string \<Rightarrow> event list \<times> (string \<times> exn) list" where
  "try_emit io payload msg = (case getIO io of
      Inl e \<Rightarrow> ([], [(msg, e)])
    | Inr s \<Rightarrow> (case payload of
        Inl e \<Rightarrow> ([], [(msg, e)])
      | Inr ev \<Rightarrow> (case s ev of None \<Rightarrow> ([ev], []) | Some e \<Rightarrow> ([], [(msg, e)]))))"

definition respond :: "nat \<Rightarrow> body \<Rightarrow> db \<Rightarrow> outcome" where
  "respond c b d = \<lparr>response = \<lparr>statusCode = c, json = b\<rparr>, store = d, emitted = [], logged = []\<rparr>"

subsection \<open>The store\<close>

definition product_findUnique :: "db \<Rightarrow> string \<Rightarrow> product option" where
  "product_findUnique d k = find (\<lambda>p. p_id p = k) (products d)"

definition product_findUnique_sku :: "db \<Rightarrow> string \<Rightarrow> product option" where
  "product_findUnique_sku d k = find (\<lambda>p. sku p = k) (products d)"

definition product_findMany_in :: "db \<Rightarrow> string list \<Rightarrow> product list" where
  "product_findMany_in d ids = filter (\<lambda>p. p_id p \<in> set ids) (products d)"

text \<open>
  Modelled from the spec: the schema of the store is not among the sources. The
  specification has stock levels and quantities as integers, and the integer type of
  the schema language, \<^verbatim>\<open>Int\<close>, is a 32-bit signed integer. A number given for an
  \<^verbatim>\<open>Int\<close> column must be an integer of 32 bits, and so must the result of a
  \<^verbatim>\<open>decrement\<close>; otherwise the write throws.
\<close>

definition set_stockLevel :: "int \<Rightarrow> product \<Rightarrow> exn + product" where
  "set_stockLevel n p =
     (if fits_Int n then Inr (p\<lparr>stockLevel_Int := to_Int n\<rparr>)
      else Inl (PrismaError ''P2020''))"

definition write_stockLevel :: "js_number \<Rightarrow> product \<Rightarrow> exn + product" where
  "write_stockLevel x p = (case x of
      Finite n \<Rightarrow> set_stockLevel n p
    | _ \<Rightarrow> Inl (PrismaError ''P2020''))"

definition decrement_stockLevel :: "int \<Rightarrow> product \<Rightarrow> exn + product" where
  "decrement_stockLevel q p =
     (if fits_Int q then set_stockLevel (stockLevel p - q) p
      else Inl (PrismaError ''P2020''))"

text \<open>
  \<^verbatim>\<open>update\<close> writes the row with the given key and returns it as updated; it throws
  P2025 when no row has the key, and what the write of a column throws.
\<close>

definition product_update ::
  "string \<Rightarrow> (product \<Rightarrow> exn + product) \<Rightarrow> db \<Rightarrow> exn + (product \<times> db)" where
  "product_update k f d = (case product_findUnique d k of
      None \<Rightarrow> Inl (PrismaError ''P2025'')
    | Some p0 \<Rightarrow>
        (case f p0 of
           Inl e \<Rightarrow> Inl e
         | Inr p1 \<Rightarrow>
             Inr (p1, d\<lparr>products := map (\<lambda>p. if p_id p = k then p1 else p) (products d)\<rparr>)))"

definition order_findUnique :: "db \<Rightarrow> string \<Rightarrow> order option" where
  "order_findUnique d k = find (\<lambda>ord. o_id ord = k) (orders d)"

definition user_findUnique :: "db \<Rightarrow> string \<Rightarrow> user option" where
  "user_findUnique d k = find (\<lambda>u. u_id u = k) (users d)"

text \<open>
  Modelled from the spec: the constraints of the schema, which is not among the sources.
  Section 3 of the specification gives every Order an identity of its own and relates
  Orders and InventoryAdjustments to the user and the products they name, and the
  controllers read \<^verbatim>\<open>result.user.name\<close> unguarded. So an insert throws when a quantity
  does not fit its \<^verbatim>\<open>Int\<close> column (P2020), when the primary key of the Order is taken
  (P2002) and when a row it refers to does not exist (P2003).
\<close>

definition order_create :: "order \<Rightarrow> db \<Rightarrow> exn + db" where
  "order_create ord d =
     (if \<exists>i \<in> set (orderItems ord). \<not> fits_Int (oi_quantity i)
      then Inl (PrismaError ''P2020'')
      else if \<exists>x \<in> set (orders d). o_id x = o_id ord
      then Inl (PrismaError ''P2002'')
      else if user_findUnique d (o_userId ord) = None
        \<or> (\<exists>i \<in> set (orderItems ord). product_findUnique d (oi_productId i) = None)
      then Inl (PrismaError ''P2003'')
      else Inr (d\<lparr>orders := orders d @ [ord]\<rparr>))"

definition order_update ::
  "string \<Rightarrow> (order \<Rightarrow> order) \<Rightarrow> db \<Rightarrow> exn + (order \<times> db)" where
  "order_update k f d = (case order_findUnique d k of
      None \<Rightarrow> Inl (PrismaError ''P2025'')
    | Some x0 \<Rightarrow>
        Inr (f x0, d\<lparr>orders := map (\<lambda>x. if o_id x = k then f x else x) (orders d)\<rparr>))"

definition inventoryAdjustment_create :: "inventory_adjustment \<Rightarrow> db \<Rightarrow> exn + db" where
  "inventoryAdjustment_create a d =
     (if \<not> fits_Int (adj_quantity a)
      then Inl (PrismaError ''P2020'')
      else if user_findUnique d (adj_userId a) = None \<or> product_findUnique d (adj_productId a) = None
      then Inl (PrismaError ''P2003'')
      else Inr (d\<lparr>adjustments := adjustments d @ [a]\<rparr>))"

definition select_product :: "bool \<Rightarrow> db \<Rightarrow> string \<Rightarrow> product_info option" where
  "select_product with_price d k = (case product_findUnique d k of
      None \<Rightarrow> None
    | Some p \<Rightarrow> Some \<lparr>pi_name = p_name p, pi_sku = sku p,
                      pi_price = (if with_price then Some (price p) else None)\<rparr>)"

definition include_order :: "bool \<Rightarrow> db \<Rightarrow> order \<Rightarrow> order_view" where
  "include_order with_price d ord =
     \<lparr>ov_order = ord,
      ov_products = map (\<lambda>i. select_product with_price d (oi_productId i)) (orderItems ord),
      ov_user = user_findUnique d (o_userId ord)\<rparr>"

definition include_adjustment :: "db \<Rightarrow> inventory_adjustment \<Rightarrow> adjustment_view" where
  "include_adjustment d a =
     \<lparr>av_adjustment = a,
      av_product = select_product False d (adj_productId a),
      av_user = user_findUnique d (adj_userId a)\<rparr>"

definition respond_500 :: "exn \<Rightarrow> db \<Rightarrow> outcome" where
  "respond_500 e d =
     \<lparr>response = \<lparr>statusCode = 500, json = ErrorMessage ''Internal server error''\<rparr>,
      store = d, emitted = [], logged = [([], e)]\<rparr>"

subsection \<open>JavaScript's \<^verbatim>\<open>Set\<close> and \<^verbatim>\<open>Map\<close>, in insertion order\<close>

definition Set_add :: "'a list \<Rightarrow> 'a \<Rightarrow> 'a list" where
  "Set_add s x = (if x \<in> set s then s else s @ [x])"

definition new_Set :: "'a list \<Rightarrow> 'a list" where
  "new_Set xs = foldl Set_add [] xs"

fun Map_set :: "('k \<times> 'v) list \<Rightarrow> 'k \<Rightarrow> 'v \<Rightarrow> ('k \<times> 'v) list" where
  "Map_set [] k v = [(k, v)]"
| "Map_set ((k', v') # m) k v = (if k' = k then (k, v) # m else (k', v') # Map_set m k v)"

definition Map_get :: "('k \<times> 'v) list \<Rightarrow> 'k \<Rightarrow> 'v option" where
  "Map_get m k = map_of m k"

text \<open>
  \<^verbatim>\<open>x || 0\<close> on a number or \<^verbatim>\<open>undefined\<close>: \<^verbatim>\<open>undefined\<close>, \<open>0\<close> and \<^verbatim>\<open>NaN\<close> are falsy.
\<close>

definition or_zero :: "js_number option \<Rightarrow> js_number" where
  "or_zero x = (case x of
      None \<Rightarrow> Finite 0
    | Some n \<Rightarrow> if n = Finite 0 \<or> n = NaN then Finite 0 else n)"

subsection \<open>\<^verbatim>\<open>createOrder\<close>\<close>

definition createOrderSchema_parse ::
  "(string \<Rightarrow> bool) \<Rightarrow> create_order_body \<Rightarrow> exn + create_order_body" where
  "createOrderSchema_parse isUuid b =
     (if items b \<noteq> [] \<and> list_all (\<lambda>i. isUuid (productId i) \<and> 0 < quantity i) (items b)
      then Inr b else Inl ZodError)"

text \<open>Step 2, first loop: the requested quantity of each distinct product.\<close>

definition add_quantity ::
  "(string \<times> js_number) list \<Rightarrow> order_item_input \<Rightarrow> (string \<times> js_number) list" where
  "add_quantity m item =
     (let currentQty = or_zero (Map_get m (productId item))
      in Map_set m (productId item) (js_add currentQty (Finite (quantity item))))"

definition productQuantities :: "order_item_input list \<Rightarrow> (string \<times> js_number) list" where
  "productQuantities its = foldl add_quantity [] its"

text \<open>Step 2, second loop: the first product whose stock is short ends the request.\<close>

fun check_stock :: "product list \<Rightarrow> (string \<times> js_number) list \<Rightarrow> response option" where
  "check_stock ps [] = None"
| "check_stock ps ((pid, totalQuantity) # rest) =
     (case find (\<lambda>p. p_id p = pid) ps of
        None \<Rightarrow> check_stock ps rest
      | Some p \<Rightarrow>
          if js_less (Finite (stockLevel p)) totalQuantity
          then Some \<lparr>statusCode = 400,
                     json = InsufficientStockOrder (p_name p) (stockLevel p) totalQuantity\<rparr>
          else check_stock ps rest)"

text \<open>
  Step 3: the \<^verbatim>\<open>map\<close> that builds the rows and adds to \<^verbatim>\<open>totalAmount\<close> (here
  \<open>amount\<close>) as it goes.
  \<^verbatim>\<open>products.find(...)!\<close> on a missing product is \<^verbatim>\<open>undefined\<close>, and reading its
  \<^verbatim>\<open>price\<close> throws.
\<close>

fun orderItemsData ::
  "product list \<Rightarrow> order_item_input list \<Rightarrow> real \<Rightarrow> exn + (real \<times> order_item list)" where
  "orderItemsData ps [] amount = Inr (amount, [])"
| "orderItemsData ps (item # rest) amount =
     (case find (\<lambda>p. p_id p = productId item) ps of
        None \<Rightarrow> Inl TypeError
      | Some p \<Rightarrow>
          (case orderItemsData ps rest (amount + price p * of_int (quantity item)) of
             Inl e \<Rightarrow> Inl e
           | Inr (amount', rows) \<Rightarrow>
               Inr (amount', \<lparr>oi_productId = productId item, oi_quantity = quantity item,
                               priceAtTime = price p\<rparr> # rows)))"

text \<open>Step 4, the loop of the transaction: one decrement and one adjustment row per line.\<close>

fun update_stock :: "string \<Rightarrow> string \<Rightarrow> order_item_input list \<Rightarrow> db \<Rightarrow> exn + db" where
  "update_stock userId oid [] d = Inr d"
| "update_stock userId oid (item # rest) d =
     (case product_update (productId item) (decrement_stockLevel (quantity item)) d of
        Inl e \<Rightarrow> Inl e
      | Inr (updated, d1) \<Rightarrow>
          (case inventoryAdjustment_create
                  \<lparr>adj_productId = productId item, adj_userId = userId,
                   adj_quantity = - quantity item, adj_type = OUT,
                   reason = Some (''Order '' @ oid)\<rparr> d1 of
             Inl e \<Rightarrow> Inl e
           | Inr d2 \<Rightarrow> update_stock userId oid rest d2))"

definition order_transaction ::
  "string \<Rightarrow> string \<Rightarrow> create_order_body \<Rightarrow> real \<Rightarrow> order_item list \<Rightarrow> db
     \<Rightarrow> exn + (order_view \<times> db)" where
  "order_transaction userId oid b amount rows d =
     (let ord = \<lparr>o_id = oid, o_userId = userId,
                  status = (case status_opt b of None \<Rightarrow> PENDING | Some s \<Rightarrow> s),
                  totalAmount = amount, orderItems = rows\<rparr>
      in case order_create ord d of
           Inl e \<Rightarrow> Inl e
         | Inr d1 \<Rightarrow>
             (case update_stock userId oid (items b) d1 of
                Inl e \<Rightarrow> Inl e
              | Inr d2 \<Rightarrow> Inr (include_order True d1 ord, d2)))"

definition order_created_payload :: "order_view \<Rightarrow> exn + event" where
  "order_created_payload result = (case ov_user result of
      None \<Rightarrow> Inl TypeError
    | Some u \<Rightarrow> Inr (OrderCreated
        \<lparr>ev_orderId = o_id (ov_order result), ev_userId = o_userId (ov_order result),
         ev_userName = u_name u, ev_totalAmount = totalAmount (ov_order result),
         ev_itemCount = length (orderItems (ov_order result)),
         ev_status = status (ov_order result)\<rparr>))"

definition createOrder ::
  "(string \<Rightarrow> bool) \<Rightarrow> socket_server option \<Rightarrow> string \<Rightarrow> string \<Rightarrow> create_order_body
     \<Rightarrow> db \<Rightarrow> outcome" where
  "createOrder isUuid io oid userId b d =
     (case createOrderSchema_parse isUuid b of
        Inl e \<Rightarrow> respond 400 ZodIssues d
      | Inr data \<Rightarrow>
          let productIds = map productId (items data);
              uniqueProductIds = new_Set productIds;
              ps = product_findMany_in d uniqueProductIds
          in if length ps \<noteq> length uniqueProductIds
             then respond 404 (ErrorMessage ''One or more products not found'') d
             else (case check_stock ps (productQuantities (items data)) of
                Some r \<Rightarrow> \<lparr>response = r, store = d, emitted = [], logged = []\<rparr>
              | None \<Rightarrow>
                  (case orderItemsData ps (items data) 0 of
                     Inl e \<Rightarrow> respond_500 e d
                   | Inr (amount, rows) \<Rightarrow>
                       (case order_transaction userId oid data amount rows d of
                          Inl e \<Rightarrow> respond_500 e d
                        | Inr (result, d') \<Rightarrow>
                            let (evs, lines) = try_emit io (order_created_payload result)
                                                 ''Failed to emit socket event''
                            in \<lparr>response = \<lparr>statusCode = 201, json = OrderJson result\<rparr>,
                                store = d', emitted = evs, logged = lines\<rparr>))))"

subsection \<open>\<^verbatim>\<open>getOrderById\<close> and \<^verbatim>\<open>updateOrderStatus\<close>\<close>

definition getOrderById :: "string \<Rightarrow> db \<Rightarrow> outcome" where
  "getOrderById k d = (case order_findUnique d k of
      None \<Rightarrow> respond 404 (ErrorMessage ''Order not found'') d
    | Some ord \<Rightarrow> respond 200 (OrderJson (include_order True d ord)) d)"

definition updateOrderStatus :: "string \<Rightarrow> order_status \<Rightarrow> db \<Rightarrow> outcome" where
  "updateOrderStatus k s d = (case order_findUnique d k of
      None \<Rightarrow> respond 404 (ErrorMessage ''Order not found'') d
    | Some ord \<Rightarrow>
        (case order_update k (\<lambda>x. x\<lparr>status := s\<rparr>) d of
           Inl e \<Rightarrow> respond_500 e d
         | Inr (updatedOrder, d') \<Rightarrow>
             respond 200 (OrderJson (include_order False d' updatedOrder)) d'))"

subsection \<open>\<^verbatim>\<open>createAdjustment\<close>\<close>

definition createAdjustmentSchema_parse ::
  "(string \<Rightarrow> bool) \<Rightarrow> create_adjustment_body \<Rightarrow> exn + create_adjustment_body" where
  "createAdjustmentSchema_parse isUuid b = (if isUuid (ca_productId b) then Inr b else Inl ZodError)"

definition adjustment_transaction ::
  "string \<Rightarrow> create_adjustment_body \<Rightarrow> js_number \<Rightarrow> db
     \<Rightarrow> exn + ((adjustment_view \<times> product) \<times> db)" where
  "adjustment_transaction userId data newStockLevel d =
     (let a = \<lparr>adj_productId = ca_productId data, adj_userId = userId,
                adj_quantity = ca_quantity data, adj_type = ca_type data,
                reason = ca_reason data\<rparr>
      in case inventoryAdjustment_create a d of
           Inl e \<Rightarrow> Inl e
         | Inr d1 \<Rightarrow>
             (case product_update (ca_productId data) (write_stockLevel newStockLevel) d1 of
                Inl e \<Rightarrow> Inl e
              | Inr (updatedProduct, d2) \<Rightarrow>
                  Inr ((include_adjustment d1 a, updatedProduct), d2)))"

definition createAdjustment ::
  "(string \<Rightarrow> bool) \<Rightarrow> socket_server option \<Rightarrow> string \<Rightarrow> create_adjustment_body
     \<Rightarrow> db \<Rightarrow> outcome" where
  "createAdjustment isUuid io userId b d =
     (case createAdjustmentSchema_parse isUuid b of
        Inl e \<Rightarrow> respond 400 ZodIssues d
      | Inr data \<Rightarrow>
          (case product_findUnique d (ca_productId data) of
             None \<Rightarrow> respond 404 (ErrorMessage ''Product not found'') d
           | Some p \<Rightarrow>
               if ca_type data = IN \<and> ca_quantity data \<le> 0
               then respond 400 (ErrorMessage ''IN adjustments must have positive quantity '') d
               else if ca_type data = OUT \<and> ca_quantity data \<ge> 0
               then respond 400 (ErrorMessage ''OUT adjustments must have negative quantity'') d
               else
                 let newStockLevel = js_add (Finite (stockLevel p)) (Finite (ca_quantity data))
                 in if js_less newStockLevel (Finite 0)
                    then respond 400
                           (InsufficientStockAdjustment (stockLevel p) \<bar>ca_quantity data\<bar>) d
                    else (case adjustment_transaction userId data newStockLevel d of
                       Inl e \<Rightarrow> respond_500 e d
                     | Inr ((adjustment, updatedProduct), d') \<Rightarrow>
                         let (evs, lines) =
                               try_emit io
                                 (Inr (StockUpdated
                                   \<lparr>ev_productId = ca_productId data, ev_productName = p_name p,
                                    ev_oldStock = stockLevel p,
                                    ev_newStock = stockLevel updatedProduct,
                                    ev_change = ca_quantity data, ev_type = ca_type data,
                                    ev_reason = ca_reason data\<rparr>))
                                 ''Failed to emit socket event:''
                         in \<lparr>response = \<lparr>statusCode = 201,
                                          json = AdjustmentJson adjustment
                                                   (stockLevel updatedProduct)\<rparr>,
                             store = d', emitted = evs, logged = lines\<rparr>)))"

subsection \<open>\<^verbatim>\<open>updateProduct\<close>\<close>

definition updateProductSchema_parse :: "update_product_body \<Rightarrow> exn + update_product_body" where
  "updateProductSchema_parse b =
     (if (case up_name b of None \<Rightarrow> True | Some n \<Rightarrow> 1 \<le> length n)
       \<and> (case up_sku b of None \<Rightarrow> True | Some s \<Rightarrow> 1 \<le> length s)
       \<and> (case up_price b of None \<Rightarrow> True | Some x \<Rightarrow> 0 < x)
       \<and> (case up_stockLevel b of None \<Rightarrow> True | Some n \<Rightarrow> 0 \<le> n)
       \<and> (case up_lowStockThreshold b of None \<Rightarrow> True | Some n \<Rightarrow> 0 \<le> n)
      then Inr b else Inl ZodError)"

text \<open>
  The \<^verbatim>\<open>data\<close> of \<^verbatim>\<open>prisma.product.update\<close>: a field that is absent stays as it is, and
  a number that does not fit its \<^verbatim>\<open>Int\<close> column throws.
\<close>

definition apply_product_data :: "update_product_body \<Rightarrow> product \<Rightarrow> exn + product" where
  "apply_product_data b p =
     (if (case up_stockLevel b of None \<Rightarrow> True | Some v \<Rightarrow> fits_Int v)
       \<and> (case up_lowStockThreshold b of None \<Rightarrow> True | Some v \<Rightarrow> fits_Int v)
      then Inr
        (p\<lparr>p_name := (case up_name b of None \<Rightarrow> p_name p | Some v \<Rightarrow> v),
           sku := (case up_sku b of None \<Rightarrow> sku p | Some v \<Rightarrow> v),
           description := (case up_description b of None \<Rightarrow> description p | Some v \<Rightarrow> Some v),
           price := (case up_price b of None \<Rightarrow> price p | Some v \<Rightarrow> v),
           stockLevel_Int :=
             (case up_stockLevel b of None \<Rightarrow> stockLevel_Int p | Some v \<Rightarrow> to_Int v),
           lowStockThreshold_Int :=
             (case up_lowStockThreshold b of
                None \<Rightarrow> lowStockThreshold_Int p
              | Some v \<Rightarrow> to_Int v)\<rparr>)
      else Inl (PrismaError ''P2020''))"

definition updateProduct :: "string \<Rightarrow> update_product_body \<Rightarrow> db \<Rightarrow> outcome" where
  "updateProduct k b d =
     (case updateProductSchema_parse b of
        Inl e \<Rightarrow> respond 400 ZodIssues d
      | Inr data \<Rightarrow>
          (case product_findUnique d k of
             None \<Rightarrow> respond 400 (ErrorMessage ''Product not found'') d
           | Some existingProduct \<Rightarrow>
               if (case up_sku data of
                     None \<Rightarrow> False
                   | Some s \<Rightarrow> s \<noteq> [] \<and> s \<noteq> sku existingProduct
                               \<and> product_findUnique_sku d s \<noteq> None)
               then respond 400 (ErrorMessage ''SKU already in use'') d
               else (case product_update k (apply_product_data data) d of
                  Inl e \<Rightarrow> respond_500 e d
                | Inr (p, d') \<Rightarrow> respond 200 (ProductJson p) d')))"

subsection \<open>Sequences of core operations\<close>

datatype core_op =
    PlaceOrder string string create_order_body
  | Adjust string create_adjustment_body

fun exec :: "(string \<Rightarrow> bool) \<Rightarrow> socket_server option \<Rightarrow> core_op \<Rightarrow> db \<Rightarrow> db" where
  "exec isUuid io (PlaceOrder oid userId b) d = store (createOrder isUuid io oid userId b d)"
| "exec isUuid io (Adjust userId b) d = store (createAdjustment isUuid io userId b d)"

text \<open>The store before the first operation and after each one, in order.\<close>

fun committed_states ::
  "(string \<Rightarrow> bool) \<Rightarrow> socket_server option \<Rightarrow> db \<Rightarrow> core_op list \<Rightarrow> db list" where
  "committed_states isUuid io d [] = [d]"
| "committed_states isUuid io d (op # ops) = d # committed_states isUuid io (exec isUuid io op d) ops"

subsection \<open>Vocabulary of the properties\<close>

text \<open>The quantity a request asks of one product, over all of its lines.\<close>

definition requested :: "order_item_input list \<Rightarrow> string \<Rightarrow> int" where
  "requested its pid = sum_list (map quantity (filter (\<lambda>i. productId i = pid) its))"

text \<open>The primary key of the Product table.\<close>

definition product_ids_unique :: "db \<Rightarrow> bool" where
  "product_ids_unique d = distinct (map p_id (products d))"

definition stock_nonneg :: "db \<Rightarrow> bool" where
  "stock_nonneg d = list_all (\<lambda>p. 0 \<le> stockLevel p) (products d)"

definition all_products_exist :: "db \<Rightarrow> order_item_input list \<Rightarrow> bool" where
  "all_products_exist d its = list_all (\<lambda>i. product_findUnique d (productId i) \<noteq> None) its"

definition stock_covers :: "db \<Rightarrow> order_item_input list \<Rightarrow> bool" where
  "stock_covers d its =
     list_all (\<lambda>p. p_id p \<in> productId ` set its \<longrightarrow> requested its (p_id p) \<le> stockLevel p)
       (products d)"

text \<open>
  The quantity of one product as \<^verbatim>\<open>createOrder\<close> sums it: line after line, from 0, with
  the \<^verbatim>\<open>+\<close> of JavaScript. Up to \<open>2 ^ 53\<close> it is the sum; beyond, it is rounded.
\<close>

definition js_sum :: "int list \<Rightarrow> js_number" where
  "js_sum qs = foldl (\<lambda>acc q. js_add acc (Finite q)) (Finite 0) qs"

definition js_requested :: "order_item_input list \<Rightarrow> string \<Rightarrow> js_number" where
  "js_requested its pid = js_sum (map quantity (filter (\<lambda>i. productId i = pid) its))"

text \<open>
  A number that stands for a sum: the sum itself when it is positive and below
  \<open>2 ^ 53\<close>, and a number of at least \<open>2 ^ 53\<close>, or the infinity, when the sum is one.
\<close>

definition at_least_2_53 :: "js_number \<Rightarrow> bool" where
  "at_least_2_53 j \<longleftrightarrow> (case j of Finite v \<Rightarrow> 2 ^ 53 \<le> v | PosInfinity \<Rightarrow> True | _ \<Rightarrow> False)"

definition stands_for :: "js_number \<Rightarrow> int \<Rightarrow> bool" where
  "stands_for j x \<longleftrightarrow> 0 < x \<and> (if x < 2 ^ 53 then j = Finite x else at_least_2_53 j)"

definition quantities_positive :: "order_item_input list \<Rightarrow> bool" where
  "quantities_positive its = list_all (\<lambda>i. 0 < quantity i) its"

text \<open>
  The product that the stock check reports: the first of the distinct requested ids,
  in the order in which the lines name them, whose stock is below the quantity requested.
\<close>

definition short_of :: "db \<Rightarrow> order_item_input list \<Rightarrow> string \<Rightarrow> bool" where
  "short_of d its pid = (case product_findUnique d pid of
      None \<Rightarrow> False
    | Some p \<Rightarrow> stockLevel p < requested its pid)"

definition first_short :: "db \<Rightarrow> order_item_input list \<Rightarrow> string option" where
  "first_short d its = find (short_of d its) (new_Set (map productId its))"

text \<open>The rows a committed order writes for one line of the request.\<close>

definition line_row :: "db \<Rightarrow> order_item_input \<Rightarrow> order_item" where
  "line_row d i =
     \<lparr>oi_productId = productId i, oi_quantity = quantity i,
      priceAtTime = (case product_findUnique d (productId i) of None \<Rightarrow> 0 | Some p \<Rightarrow> price p)\<rparr>"

definition line_adjustment :: "string \<Rightarrow> string \<Rightarrow> order_item_input \<Rightarrow> inventory_adjustment" where
  "line_adjustment userId oid i =
     \<lparr>adj_productId = productId i, adj_userId = userId, adj_quantity = - quantity i,
      adj_type = OUT, reason = Some (''Order '' @ oid)\<rparr>"

definition stock_of :: "db \<Rightarrow> string \<Rightarrow> int option" where
  "stock_of d pid = map_option stockLevel (product_findUnique d pid)"

text \<open>What a request that passes every check commits: the Order row and the store.\<close>

definition placed_order :: "string \<Rightarrow> string \<Rightarrow> create_order_body \<Rightarrow> db \<Rightarrow> order" where
  "placed_order userId oid b d =
     \<lparr>o_id = oid, o_userId = userId,
      status = (case status_opt b of None \<Rightarrow> PENDING | Some s \<Rightarrow> s),
      totalAmount =
        sum_list (map (\<lambda>r. priceAtTime r * of_int (oi_quantity r)) (map (line_row d) (items b))),
      orderItems = map (line_row d) (items b)\<rparr>"

definition placed_store :: "string \<Rightarrow> string \<Rightarrow> create_order_body \<Rightarrow> db \<Rightarrow> db" where
  "placed_store userId oid b d =
     d\<lparr>orders := orders d @ [placed_order userId oid b d],
       products :=
         map (\<lambda>p. p\<lparr>stockLevel_Int := to_Int (stockLevel p - requested (items b) (p_id p))\<rparr>)
           (products d),
       adjustments := adjustments d @ map (line_adjustment userId oid) (items b)\<rparr>"

text \<open>The Order row that a response carries, if it carries one.\<close>

definition returned_order :: "outcome \<Rightarrow> order option" where
  "returned_order out = (case json (response out) of
      OrderJson v \<Rightarrow> Some (ov_order v)
    | _ \<Rightarrow> None)"

text \<open>An adjustment request whose sign contradicts its type.\<close>

definition sign_mismatch :: "create_adjustment_body \<Rightarrow> bool" where
  "sign_mismatch b \<longleftrightarrow>
     (ca_type b = IN \<and> ca_quantity b \<le> 0) \<or> (ca_type b = OUT \<and> ca_quantity b \<ge> 0)"

subsection \<open>A small store for the examples\<close>

definition demo_user :: user where
  "demo_user = \<lparr>u_id = ''u1'', u_name = ''Ada'', u_email = ''ada@example.com''\<rparr>"

definition demo_P :: product where
  "demo_P = \<lparr>p_id = ''P'', p_name = ''Widget'', sku = ''W-1'', description = None,
             price = 5 / 2, stockLevel_Int = 10, lowStockThreshold_Int = 2\<rparr>"

definition demo_Q :: product where
  "demo_Q = \<lparr>p_id = ''Q'', p_name = ''Gadget'', sku = ''G-1'', description = None,
             price = 4, stockLevel_Int = 3, lowStockThreshold_Int = 1\<rparr>"

definition demo_db :: db where
  "demo_db = \<lparr>users = [demo_user], products = [demo_P, demo_Q], orders = [], adjustments = []\<rparr>"

definition nonempty :: "string \<Rightarrow> bool" where
  "nonempty s \<longleftrightarrow> s \<noteq> []"

definition line :: "string \<Rightarrow> int \<Rightarrow> order_item_input" where
  "line pid q = \<lparr>productId = pid, quantity = q\<rparr>"

definition order_of :: "order_item_input list \<Rightarrow> create_order_body" where
  "order_of its = \<lparr>items = its, status_opt = None\<rparr>"

definition adjustment_of :: "string \<Rightarrow> int \<Rightarrow> adjustment_type \<Rightarrow> create_adjustment_body" where
  "adjustment_of pid q t =
     \<lparr>ca_productId = pid, ca_quantity = q, ca_type = t, ca_reason = Some ''restock''\<rparr>"

definition price_change :: "real \<Rightarrow> update_product_body" where
  "price_change x =
     \<lparr>up_name = None, up_sku = None, up_description = None, up_price = Some x,
      up_stockLevel = None, up_lowStockThreshold = None\<rparr>"

text \<open>The example store after an order \<open>o1\<close> of four units of \<open>P\<close>.\<close>

definition demo_db_o1 :: db where
  "demo_db_o1 = store (createOrder nonempty None ''o1'' ''u1'' (order_of [line ''P'' 4]) demo_db)"

section \<open>Lemmas\<close>

subsection \<open>The stock column and the rounding of sums\<close>

lemma sint_to_Int_fits: "fits_Int n \<Longrightarrow> sint (to_Int n) = n"
  by (simp add: to_Int_def fits_Int_def sint_sbintrunc' signed_take_bit_int_eq_self)

lemma stockLevel_fits: "fits_Int (stockLevel p)"
  using sint_ge[of "stockLevel_Int p"] sint_lt[of "stockLevel_Int p"]
  by (simp add: fits_Int_def stockLevel_def)

lemma stockLevel_upper: "stockLevel p \<le> 2147483647"
  using stockLevel_fits[of p] by (simp add: fits_Int_def)

lemma stockLevel_written:
  "fits_Int n \<Longrightarrow> stockLevel (p\<lparr>stockLevel_Int := to_Int n\<rparr>) = n"
  by (simp add: stockLevel_def sint_to_Int_fits)

lemma stockLevel_rewritten: "p\<lparr>stockLevel_Int := to_Int (stockLevel p)\<rparr> = p"
  by (simp add: stockLevel_def to_Int_def)

lemma round_double_exact: "\<bar>n\<bar> < 2 ^ 53 \<Longrightarrow> round_double n = Finite n"
  by (simp add: round_double_def)

lemma round_double_big:
  assumes "2 ^ 53 \<le> n"
  shows "at_least_2_53 (round_double n)"
proof -
  define k where "k = nat (bitlen n - 53)"
  define q where "q = n div 2 ^ k"
  define m where "m = (if n mod 2 ^ k < 2 ^ (k - 1) \<or> (n mod 2 ^ k = 2 ^ (k - 1) \<and> even q) then q else q + 1)"
  from assms have pos: "0 < n" by simp
  from bitlen_bounds[OF pos] have lo: "2 ^ nat (bitlen n - 1) \<le> n" by simp
  from assms bitlen_le_iff_power[of n 53] have b: "54 \<le> bitlen n" by simp
  then have k1: "1 \<le> k" and kb: "nat (bitlen n - 1) = 52 + k" by (simp_all add: k_def)
  have k2: "(2::int) \<le> 2 ^ k"
    using power_increasing[of 1 k "2::int"] k1 by simp
  from lo have lo': "2 ^ 52 * 2 ^ k \<le> n" unfolding kb power_add .
  have "(2::int) ^ 52 = (2 ^ 52 * 2 ^ k) div 2 ^ k" by simp
  also have "\<dots> \<le> n div 2 ^ k" by (rule zdiv_mono1) (use lo' in simp_all)
  finally have "2 ^ 52 \<le> q" by (simp add: q_def)
  then have m52: "2 ^ 52 \<le> m" by (simp add: m_def)
  have "(2::int) ^ 53 = 2 ^ 52 * 2" by simp
  also have "\<dots> \<le> 2 ^ 52 * 2 ^ k" using k2 by (intro mult_left_mono) simp_all
  also have "\<dots> \<le> m * 2 ^ k" using m52 by (intro mult_right_mono) simp_all
  finally have v: "2 ^ 53 \<le> m * 2 ^ k" .
  have a: "\<bar>n\<bar> = n" "\<not> n < 2 ^ 53" "\<not> n < 0" using pos assms by simp_all
  have "round_double n = (if 2 ^ 1024 \<le> m * 2 ^ k then PosInfinity else Finite (m * 2 ^ k))"
    using a by (simp add: round_double_def Let_def m_def q_def k_def)
  with v show ?thesis
    by (simp add: at_least_2_53_def)
qed

lemma js_add_first: "0 < q \<Longrightarrow> stands_for (js_add (Finite 0) (Finite q)) q"
  using round_double_exact[of q] round_double_big[of q]
  by (auto simp: stands_for_def)

lemma js_add_stands:
  assumes "stands_for j x" and "0 < q"
  shows "stands_for (js_add j (Finite q)) (x + q)"
proof (cases "x + q < 2 ^ 53")
  case True
  with assms have "j = Finite x" "\<bar>x + q\<bar> < 2 ^ 53" by (auto simp: stands_for_def)
  with True assms show ?thesis by (simp add: stands_for_def round_double_exact)
next
  case False
  then have big: "2 ^ 53 \<le> x + q" by simp
  have "at_least_2_53 (js_add j (Finite q))"
  proof (cases "x < 2 ^ 53")
    case True
    with assms have "j = Finite x" by (simp add: stands_for_def)
    with round_double_big[OF big] show ?thesis by simp
  next
    case False
    with assms have "at_least_2_53 j" by (simp add: stands_for_def)
    then consider "j = PosInfinity" | v where "j = Finite v" "2 ^ 53 \<le> v"
      by (cases j) (auto simp: at_least_2_53_def)
    then show ?thesis
    proof cases
      case 1
      then show ?thesis by (simp add: at_least_2_53_def)
    next
      case 2
      with assms(2) have "2 ^ 53 \<le> v + q" by simp
      from round_double_big[OF this] 2 show ?thesis by simp
    qed
  qed
  with False assms show ?thesis by (simp add: stands_for_def)
qed

lemma stands_for_truthy: "stands_for j x \<Longrightarrow> or_zero (Some j) = j"
  by (cases j) (auto simp: stands_for_def or_zero_def at_least_2_53_def split: if_splits)

lemma js_less_stands:
  assumes "stands_for j x" and "s \<le> 2147483647"
  shows "js_less (Finite s) j \<longleftrightarrow> s < x"
proof (cases "x < 2 ^ 53")
  case True
  with assms show ?thesis by (simp add: stands_for_def)
next
  case False
  with assms have "at_least_2_53 j" by (simp add: stands_for_def)
  with assms(2) False show ?thesis
    by (cases j) (auto simp: at_least_2_53_def)
qed

lemma js_sum_snoc: "js_sum (qs @ [q]) = js_add (js_sum qs) (Finite q)"
  by (simp add: js_sum_def)

lemma js_sum_stands:
  "qs \<noteq> [] \<Longrightarrow> \<forall>q \<in> set qs. 0 < q \<Longrightarrow> stands_for (js_sum qs) (sum_list qs)"
proof (induction qs rule: rev_induct)
  case Nil
  then show ?case by simp
next
  case (snoc q qs)
  show ?case
  proof (cases "qs = []")
    case True
    with snoc.prems js_add_first[of q] show ?thesis by (simp add: js_sum_def)
  next
    case False
    with snoc have "stands_for (js_sum qs) (sum_list qs)" "0 < q" by simp_all
    from js_add_stands[OF this] show ?thesis by (simp add: js_sum_snoc)
  qed
qed

lemma js_requested_stands:
  assumes "quantities_positive its" and "pid \<in> productId ` set its"
  shows "stands_for (js_requested its pid) (requested its pid)"
proof -
  let ?qs = "map quantity (filter (\<lambda>i. productId i = pid) its)"
  from assms(2) have "?qs \<noteq> []" by (auto simp: filter_empty_conv)
  moreover from assms(1) have "\<forall>q \<in> set ?qs. 0 < q"
    by (auto simp: quantities_positive_def list_all_iff)
  ultimately show ?thesis
    using js_sum_stands[of ?qs] by (simp add: js_requested_def requested_def)
qed

lemma js_requested_snoc:
  "js_requested (its @ [i]) pid =
     (if productId i = pid then js_add (js_requested its pid) (Finite (quantity i))
      else js_requested its pid)"
  by (simp add: js_requested_def js_sum_snoc)

lemma js_requested_notin: "pid \<notin> productId ` set its \<Longrightarrow> js_requested its pid = Finite 0"
proof -
  assume "pid \<notin> productId ` set its"
  then have "filter (\<lambda>i. productId i = pid) its = []" by (auto simp: filter_empty_conv)
  then show ?thesis by (simp add: js_requested_def js_sum_def)
qed

subsection \<open>\<open>Set\<close>, \<open>Map\<close> and lookups\<close>

lemma foldl_Set_add:
  "set (foldl Set_add s xs) = set s \<union> set xs"
  "distinct s \<Longrightarrow> distinct (foldl Set_add s xs)"
  by (induction xs arbitrary: s) (auto simp: Set_add_def)

lemma set_new_Set: "set (new_Set xs) = set xs"
  by (simp add: new_Set_def foldl_Set_add)

lemma distinct_new_Set: "distinct (new_Set xs)"
  by (simp add: new_Set_def foldl_Set_add)

lemma length_filter_ids:
  assumes "distinct (map p_id ps)" "distinct ids"
  shows "length (filter (\<lambda>p. p_id p \<in> set ids) ps) = length ids \<longleftrightarrow> set ids \<subseteq> p_id ` set ps"
proof -
  let ?f = "filter (\<lambda>p. p_id p \<in> set ids) ps"
  have d: "distinct (map p_id ?f)" using assms(1) by (simp add: distinct_map_filter)
  have "length ?f = length (map p_id ?f)" by simp
  also have "\<dots> = card (set (map p_id ?f))" using d by (simp only: distinct_card)
  also have "set (map p_id ?f) = set ids \<inter> p_id ` set ps" by auto
  finally have l: "length ?f = card (set ids \<inter> p_id ` set ps)" .
  have r: "length ids = card (set ids)" using assms(2) by (simp add: distinct_card)
  show ?thesis
  proof
    assume "length ?f = length ids"
    then have "card (set ids \<inter> p_id ` set ps) = card (set ids)" using l r by simp
    then have "set ids \<inter> p_id ` set ps = set ids"
      by (intro card_subset_eq) auto
    then show "set ids \<subseteq> p_id ` set ps" by blast
  next
    assume "set ids \<subseteq> p_id ` set ps"
    then have "set ids \<inter> p_id ` set ps = set ids" by blast
    then show "length ?f = length ids" using l r by simp
  qed
qed

lemma Map_set_map_of: "map_of (Map_set m k v) = (map_of m)(k \<mapsto> v)"
  by (induction m) (auto simp: fun_eq_iff)

lemma Map_set_keys:
  "map fst (Map_set m k v) = (if map_of m k = None then map fst m @ [k] else map fst m)"
  by (induction m) auto

lemma map_of_add_quantity:
  "map_of (add_quantity m a) pid =
     (if productId a = pid
      then Some (js_add (or_zero (map_of m pid)) (Finite (quantity a)))
      else map_of m pid)"
  by (simp add: add_quantity_def Map_set_map_of Map_get_def)

text \<open>The map after the lines \<open>pre\<close>: every requested id with its sum.\<close>

lemma add_quantity_sums:
  assumes inv: "\<And>pid. map_of m pid =
                  (if pid \<in> productId ` set pre then Some (js_requested pre pid) else None)"
    and pos: "quantities_positive pre" "0 < quantity i"
  shows "map_of (add_quantity m i) pid =
           (if pid \<in> productId ` set (pre @ [i]) then Some (js_requested (pre @ [i]) pid) else None)"
proof (cases "productId i = pid")
  case False
  then show ?thesis by (auto simp: map_of_add_quantity inv js_requested_snoc)
next
  case True
  show ?thesis
  proof (cases "pid \<in> productId ` set pre")
    case False
    with True show ?thesis
      by (simp add: map_of_add_quantity inv js_requested_snoc js_requested_notin or_zero_def)
  next
    case seen: True
    from js_requested_stands[OF pos(1) seen]
    have "or_zero (Some (js_requested pre pid)) = js_requested pre pid"
      by (rule stands_for_truthy)
    with True seen show ?thesis
      by (simp add: map_of_add_quantity inv js_requested_snoc)
  qed
qed

lemma foldl_add_quantity_sums:
  assumes "\<And>pid. map_of m pid =
                  (if pid \<in> productId ` set pre then Some (js_requested pre pid) else None)"
    and "quantities_positive pre" "quantities_positive its"
  shows "map_of (foldl add_quantity m its) pid =
           (if pid \<in> productId ` set (pre @ its) then Some (js_requested (pre @ its) pid) else None)"
  using assms
proof (induction its arbitrary: m pre)
  case Nil
  then show ?case by simp
next
  case (Cons i its)
  from Cons.prems(3) have pi: "0 < quantity i" and pits: "quantities_positive its"
    by (simp_all add: quantities_positive_def)
  have inv': "\<And>pid. map_of (add_quantity m i) pid =
           (if pid \<in> productId ` set (pre @ [i]) then Some (js_requested (pre @ [i]) pid) else None)"
    by (rule add_quantity_sums[OF Cons.prems(1) Cons.prems(2) pi])
  have pp: "quantities_positive (pre @ [i])"
    using Cons.prems(2) pi by (simp add: quantities_positive_def)
  from Cons.IH[OF inv' pp pits] show ?case by simp
qed

lemma foldl_quantities_distinct:
  "distinct (map fst m) \<Longrightarrow> distinct (map fst (foldl add_quantity m its))"
  by (induction its arbitrary: m) (auto simp: add_quantity_def Map_set_keys map_of_eq_None_iff)

lemma productQuantities_lookup:
  "quantities_positive its \<Longrightarrow>
   map_of (productQuantities its) pid =
     (if pid \<in> productId ` set its then Some (js_requested its pid) else None)"
  using foldl_add_quantity_sums[of "[]" "[]" its pid]
  by (simp add: productQuantities_def quantities_positive_def)

lemma productQuantities_distinct: "distinct (map fst (productQuantities its))"
  by (simp add: productQuantities_def foldl_quantities_distinct)

lemma productQuantities_mem:
  "quantities_positive its \<Longrightarrow>
   (pid, t) \<in> set (productQuantities its) \<longleftrightarrow>
     pid \<in> productId ` set its \<and> t = js_requested its pid"
  using map_of_eq_Some_iff[OF productQuantities_distinct, of its pid t]
  by (auto simp: productQuantities_lookup split: if_splits)

lemma find_filter_ids:
  "pid \<in> S \<Longrightarrow>
   find (\<lambda>p. p_id p = pid) (filter (\<lambda>p. p_id p \<in> S) ps) = find (\<lambda>p. p_id p = pid) ps"
  by (induction ps) auto

lemma find_distinct_id:
  "distinct (map p_id ps) \<Longrightarrow> p \<in> set ps \<Longrightarrow> find (\<lambda>q. p_id q = p_id p) ps = Some p"
  by (induction ps) (auto simp: image_iff)

lemma find_Some_id: "find (\<lambda>q. p_id q = k) ps = Some p \<Longrightarrow> p \<in> set ps \<and> p_id p = k"
  by (induction ps) (auto split: if_splits)

lemma find_None_id: "find (\<lambda>q. p_id q = k) ps = None \<longleftrightarrow> k \<notin> p_id ` set ps"
  by (induction ps) auto

subsection \<open>The pieces of \<^verbatim>\<open>createOrder\<close>\<close>

lemma find_map_id:
  "(\<And>p. p_id (g p) = p_id p) \<Longrightarrow>
   find (\<lambda>p. p_id p = k) (map g ps) = map_option g (find (\<lambda>p. p_id p = k) ps)"
  by (induction ps) auto

lemma requested_Cons:
  "requested (i # its) pid = (if productId i = pid then quantity i else 0) + requested its pid"
  by (simp add: requested_def)

lemma orderItemsData_ok:
  "list_all (\<lambda>i. find (\<lambda>p. p_id p = productId i) ps \<noteq> None) its \<Longrightarrow>
   \<exists>rows. orderItemsData ps its a = Inr (a + sum_list (map (\<lambda>r. priceAtTime r * of_int (oi_quantity r)) rows), rows)
     \<and> rows = map (\<lambda>i. \<lparr>oi_productId = productId i, oi_quantity = quantity i,
                          priceAtTime = (case find (\<lambda>p. p_id p = productId i) ps of None \<Rightarrow> 0 | Some p \<Rightarrow> price p)\<rparr>) its"
proof (induction its arbitrary: a)
  case Nil
  then show ?case by simp
next
  case (Cons i its)
  then obtain p where p: "find (\<lambda>p. p_id p = productId i) ps = Some p" by auto
  from Cons.prems have "list_all (\<lambda>i. find (\<lambda>p. p_id p = productId i) ps \<noteq> None) its" by simp
  from Cons.IH[OF this, of "a + price p * of_int (quantity i)"] p
  show ?case by (auto simp: algebra_simps)
qed

lemma user_findUnique_update [simp]:
  "user_findUnique (d\<lparr>products := ps\<rparr>) k = user_findUnique d k"
  "user_findUnique (d\<lparr>orders := os\<rparr>) k = user_findUnique d k"
  "user_findUnique (d\<lparr>adjustments := as\<rparr>) k = user_findUnique d k"
  by (simp_all add: user_findUnique_def)

lemma product_findUnique_update [simp]:
  "product_findUnique (d\<lparr>orders := os\<rparr>) k = product_findUnique d k"
  "product_findUnique (d\<lparr>adjustments := as\<rparr>) k = product_findUnique d k"
  by (simp_all add: product_findUnique_def)

lemma find_replace:
  "p_id p1 = k \<Longrightarrow>
   find (\<lambda>p. p_id p = k') (map (\<lambda>p. if p_id p = k then p1 else p) ps) =
     map_option (\<lambda>p. if p_id p = k then p1 else p) (find (\<lambda>p. p_id p = k') ps)"
  by (rule find_map_id) simp

lemma product_findUnique_replace:
  "p_id p1 = k \<Longrightarrow>
   product_findUnique (d\<lparr>products := map (\<lambda>p. if p_id p = k then p1 else p) (products d)\<rparr>) k' =
     map_option (\<lambda>p. if p_id p = k then p1 else p) (product_findUnique d k')"
  by (simp add: product_findUnique_def find_replace)

lemma product_findUnique_Some:
  "product_findUnique d k = Some p \<Longrightarrow> p \<in> set (products d) \<and> p_id p = k"
  by (auto simp: product_findUnique_def dest: find_Some_id)

lemma product_findUnique_member:
  "product_ids_unique d \<Longrightarrow> p \<in> set (products d) \<Longrightarrow> product_findUnique d (p_id p) = Some p"
  by (simp add: product_findUnique_def product_ids_unique_def find_distinct_id)

lemma product_update_ok:
  "product_findUnique d k = Some p0 \<Longrightarrow> f p0 = Inr p1 \<Longrightarrow>
   product_update k f d =
     Inr (p1, d\<lparr>products := map (\<lambda>p. if p_id p = k then p1 else p) (products d)\<rparr>)"
  by (simp add: product_update_def)

lemma requested_nonneg: "quantities_positive its \<Longrightarrow> 0 \<le> requested its pid"
  unfolding requested_def quantities_positive_def
  by (intro sum_list_nonneg) (auto simp: list_all_iff)

lemma requested_notin: "pid \<notin> productId ` set its \<Longrightarrow> requested its pid = 0"
proof -
  assume "pid \<notin> productId ` set its"
  then have "filter (\<lambda>i. productId i = pid) its = []" by (auto simp: filter_empty_conv)
  then show ?thesis by (simp add: requested_def)
qed

lemma stock_covers_iff:
  "stock_covers d its \<longleftrightarrow>
     (\<forall>p \<in> set (products d). p_id p \<in> productId ` set its \<longrightarrow> requested its (p_id p) \<le> stockLevel p)"
  by (simp add: stock_covers_def list_all_iff)

text \<open>What the stock covers stays in the column, line after line.\<close>

lemma covered_level:
  assumes "quantities_positive its" and "stock_covers d its" and "p \<in> set (products d)"
  shows "fits_Int (stockLevel p - requested its (p_id p))"
    and "p_id p \<in> productId ` set its \<Longrightarrow> 0 \<le> stockLevel p - requested its (p_id p)"
proof -
  have le: "requested its (p_id p) \<le> stockLevel p" if "p_id p \<in> productId ` set its"
    using that assms(2,3) by (auto simp: stock_covers_iff)
  then show "p_id p \<in> productId ` set its \<Longrightarrow> 0 \<le> stockLevel p - requested its (p_id p)"
    by simp
  show "fits_Int (stockLevel p - requested its (p_id p))"
  proof (cases "p_id p \<in> productId ` set its")
    case True
    with le requested_nonneg[OF assms(1), of "p_id p"] stockLevel_fits[of p]
    show ?thesis by (simp add: fits_Int_def)
  next
    case False
    with stockLevel_fits[of p] show ?thesis by (simp add: requested_notin)
  qed
qed

lemma update_stock_ok:
  assumes "product_ids_unique d"
    and "user_findUnique d userId \<noteq> None"
    and "all_products_exist d its"
    and "quantities_positive its"
    and "stock_covers d its"
  shows "update_stock userId oid its d =
     Inr (d\<lparr>products :=
              map (\<lambda>p. p\<lparr>stockLevel_Int := to_Int (stockLevel p - requested its (p_id p))\<rparr>)
                (products d),
            adjustments := adjustments d @ map (line_adjustment userId oid) its\<rparr>)"
  using assms
proof (induction its arbitrary: d)
  case Nil
  then show ?case by (simp add: requested_def stockLevel_rewritten)
next
  case (Cons i its)
  let ?k = "productId i" and ?q = "quantity i"
  from Cons.prems(4) have q: "0 < ?q" and pos: "quantities_positive its"
    by (simp_all add: quantities_positive_def)
  from Cons.prems(3) obtain p0 where f0: "product_findUnique d ?k = Some p0"
    by (auto simp: all_products_exist_def)
  then have p0: "p0 \<in> set (products d)" "p_id p0 = ?k"
    by (simp_all add: product_findUnique_Some)
  from Cons.prems(5) p0 have "requested (i # its) ?k \<le> stockLevel p0"
    by (auto simp: stock_covers_iff)
  then have le: "?q + requested its ?k \<le> stockLevel p0" by (simp add: requested_Cons)
  note nn = requested_nonneg[OF pos, of ?k]
  from q le nn stockLevel_fits[of p0]
  have fq: "fits_Int ?q" "fits_Int (- ?q)" "fits_Int (stockLevel p0 - ?q)"
    by (simp_all add: fits_Int_def)
  define p1 where "p1 = p0\<lparr>stockLevel_Int := to_Int (stockLevel p0 - ?q)\<rparr>"
  have p1: "p_id p1 = ?k" "stockLevel p1 = stockLevel p0 - ?q"
    using p0(2) fq(3) by (simp_all add: p1_def stockLevel_written)
  define d1 where "d1 = d\<lparr>products := map (\<lambda>p. if p_id p = ?k then p1 else p) (products d)\<rparr>"
  define d2 where "d2 = d1\<lparr>adjustments := adjustments d @ [line_adjustment userId oid i]\<rparr>"
  have u1: "product_update ?k (decrement_stockLevel ?q) d = Inr (p1, d1)"
    unfolding d1_def
    by (rule product_update_ok[OF f0]) (simp add: decrement_stockLevel_def set_stockLevel_def fq p1_def)
  have fu1: "product_findUnique d1 k' = map_option (\<lambda>p. if p_id p = ?k then p1 else p) (product_findUnique d k')" for k'
    unfolding d1_def by (rule product_findUnique_replace) (rule p1(1))
  have f1: "product_findUnique d1 ?k = Some p1"
    using f0 p0(2) by (simp add: fu1)
  have us1: "user_findUnique d1 userId = user_findUnique d userId"
    and ad1: "adjustments d1 = adjustments d"
    by (simp_all add: d1_def user_findUnique_def)
  have a1: "inventoryAdjustment_create (line_adjustment userId oid i) d1 = Inr d2"
    using fq(2) Cons.prems(2) f1
    by (auto simp: inventoryAdjustment_create_def line_adjustment_def us1 ad1 d2_def)
  have step: "update_stock userId oid (i # its) d = update_stock userId oid its d2"
    using u1 a1 by (simp add: line_adjustment_def)
  have ids: "map p_id (products d2) = map p_id (products d)"
    using p1(1) by (simp add: d2_def d1_def comp_def)
  have pk2: "product_ids_unique d2"
    using Cons.prems(1) ids by (simp add: product_ids_unique_def)
  have u2: "user_findUnique d2 userId \<noteq> None"
    using Cons.prems(2) by (simp add: d2_def d1_def)
  have fu2: "product_findUnique d2 k' = product_findUnique d1 k'" for k'
    by (simp add: d2_def)
  have ex2: "all_products_exist d2 its"
    using Cons.prems(3) by (simp add: all_products_exist_def fu2 fu1)
  have cov2: "stock_covers d2 its"
    unfolding stock_covers_iff
  proof (intro ballI impI)
    fix p assume p: "p \<in> set (products d2)" and m: "p_id p \<in> productId ` set its"
    from p have "p \<in> set (map (\<lambda>p. if p_id p = ?k then p1 else p) (products d))"
      by (simp add: d2_def d1_def)
    then consider "p = p1" | "p \<in> set (products d)" "p_id p \<noteq> ?k" by auto
    then show "requested its (p_id p) \<le> stockLevel p"
    proof cases
      case 1
      with le p1 show ?thesis by simp
    next
      case 2
      with Cons.prems(5) m have "requested (i # its) (p_id p) \<le> stockLevel p"
        by (auto simp: stock_covers_iff)
      with 2(2) show ?thesis by (simp add: requested_Cons)
    qed
  qed
  have prods: "map (\<lambda>p. p\<lparr>stockLevel_Int := to_Int (stockLevel p - requested its (p_id p))\<rparr>)
                 (products d2) =
               map (\<lambda>p. p\<lparr>stockLevel_Int := to_Int (stockLevel p - requested (i # its) (p_id p))\<rparr>)
                 (products d)"
  proof -
    have "(if p_id p = ?k then p1 else p)
            \<lparr>stockLevel_Int := to_Int (stockLevel (if p_id p = ?k then p1 else p)
                - requested its (p_id (if p_id p = ?k then p1 else p)))\<rparr>
          = p\<lparr>stockLevel_Int := to_Int (stockLevel p - requested (i # its) (p_id p))\<rparr>"
      if "p \<in> set (products d)" for p
    proof (cases "p_id p = ?k")
      case True
      with that Cons.prems(1) f0 have "p = p0"
        using product_findUnique_member[of d p] by simp
      have "p1\<lparr>stockLevel_Int := to_Int (stockLevel p1 - requested its ?k)\<rparr>
              = p0\<lparr>stockLevel_Int := to_Int (stockLevel p0 - (?q + requested its ?k))\<rparr>"
        by (simp only: p1(2) diff_diff_eq) (simp add: p1_def)
      with True \<open>p = p0\<close> p0(2) p1(1) show ?thesis
        by (simp add: requested_Cons)
    next
      case False
      then show ?thesis by (simp add: requested_Cons)
    qed
    then show ?thesis by (simp add: d2_def d1_def)
  qed
  show ?case
    unfolding step Cons.IH[OF pk2 u2 ex2 pos cov2] prods
    by (simp add: d2_def d1_def)
qed

lemma all_products_exist_iff:
  "all_products_exist d its \<longleftrightarrow> productId ` set its \<subseteq> p_id ` set (products d)"
  by (auto simp: all_products_exist_def list_all_iff product_findUnique_def find_None_id)

lemma findMany_length:
  assumes "product_ids_unique d"
  shows "length (product_findMany_in d (new_Set (map productId its))) = length (new_Set (map productId its))
          \<longleftrightarrow> all_products_exist d its"
  using length_filter_ids[of "products d" "new_Set (map productId its)"] assms
  by (simp add: product_findMany_in_def product_ids_unique_def distinct_new_Set set_new_Set all_products_exist_iff)

lemma find_findMany:
  "pid \<in> productId ` set its \<Longrightarrow>
   find (\<lambda>p. p_id p = pid) (product_findMany_in d (new_Set (map productId its))) = product_findUnique d pid"
  by (simp add: product_findMany_in_def product_findUnique_def find_filter_ids set_new_Set)

lemma keys_add_quantity: "map fst (add_quantity m i) = Set_add (map fst m) (productId i)"
  by (auto simp: add_quantity_def Map_set_keys Set_add_def map_of_eq_None_iff)

lemma keys_foldl_add_quantity:
  "map fst (foldl add_quantity m its) = foldl Set_add (map fst m) (map productId its)"
  by (induction its arbitrary: m) (simp_all add: keys_add_quantity)

lemma keys_productQuantities: "map fst (productQuantities its) = new_Set (map productId its)"
  by (simp add: productQuantities_def new_Set_def keys_foldl_add_quantity)

lemma productQuantities_eq:
  assumes "quantities_positive its"
  shows "productQuantities its =
           map (\<lambda>pid. (pid, js_requested its pid)) (new_Set (map productId its))"
proof -
  have "productQuantities its = map (\<lambda>x. (fst x, js_requested its (fst x))) (productQuantities its)"
    by (rule map_idI[symmetric]) (auto simp: productQuantities_mem[OF assms])
  also have "\<dots> = map (\<lambda>pid. (pid, js_requested its pid)) (map fst (productQuantities its))"
    by (simp add: comp_def)
  finally show ?thesis by (simp only: keys_productQuantities)
qed

lemma check_stock_find:
  "check_stock ps (map (\<lambda>pid. (pid, f pid)) ks) =
     (case find (\<lambda>pid. case find (\<lambda>p. p_id p = pid) ps of
                          None \<Rightarrow> False
                        | Some p \<Rightarrow> js_less (Finite (stockLevel p)) (f pid)) ks of
        None \<Rightarrow> None
      | Some pid \<Rightarrow>
          (case find (\<lambda>p. p_id p = pid) ps of
             None \<Rightarrow> None
           | Some p \<Rightarrow> Some \<lparr>statusCode = 400,
                              json = InsufficientStockOrder (p_name p) (stockLevel p) (f pid)\<rparr>))"
  by (induction ks) (auto split: option.splits)

lemma check_stock_first_short:
  assumes pos: "quantities_positive its"
  shows "check_stock (product_findMany_in d (new_Set (map productId its))) (productQuantities its) =
     (case first_short d its of
        None \<Rightarrow> None
      | Some pid \<Rightarrow>
          (case product_findUnique d pid of
             None \<Rightarrow> None
           | Some p \<Rightarrow> Some \<lparr>statusCode = 400,
                              json = InsufficientStockOrder (p_name p) (stockLevel p)
                                       (js_requested its pid)\<rparr>))"
proof -
  let ?ks = "new_Set (map productId its)"
  let ?ps = "product_findMany_in d ?ks"
  have f: "find (\<lambda>p. p_id p = pid) ?ps = product_findUnique d pid" if "pid \<in> set ?ks" for pid
    using that by (simp add: find_findMany set_new_Set)
  have sh: "(case product_findUnique d pid of
               None \<Rightarrow> False
             | Some p \<Rightarrow> js_less (Finite (stockLevel p)) (js_requested its pid))
            = short_of d its pid" if "pid \<in> set ?ks" for pid
  proof (cases "product_findUnique d pid")
    case None
    then show ?thesis by (simp add: short_of_def)
  next
    case (Some p)
    from that have "pid \<in> productId ` set its" by (simp add: set_new_Set)
    from js_less_stands[OF js_requested_stands[OF pos this] stockLevel_upper, of p] Some
    show ?thesis by (simp add: short_of_def)
  qed
  have "find (\<lambda>pid. case find (\<lambda>p. p_id p = pid) ?ps of
                          None \<Rightarrow> False
                        | Some p \<Rightarrow> js_less (Finite (stockLevel p)) (js_requested its pid)) ?ks
        = find (short_of d its) ?ks"
    by (rule find_cong) (simp_all add: f sh)
  then have c: "check_stock ?ps (productQuantities its) =
     (case first_short d its of
        None \<Rightarrow> None
      | Some pid \<Rightarrow>
          (case find (\<lambda>p. p_id p = pid) ?ps of
             None \<Rightarrow> None
           | Some p \<Rightarrow> Some \<lparr>statusCode = 400,
                              json = InsufficientStockOrder (p_name p) (stockLevel p)
                                       (js_requested its pid)\<rparr>))"
    by (simp add: productQuantities_eq[OF pos] check_stock_find first_short_def)
  show ?thesis
  proof (cases "first_short d its")
    case None
    with c show ?thesis by simp
  next
    case (Some pid)
    then have "pid \<in> set ?ks" by (auto simp: first_short_def find_Some_iff)
    with c Some show ?thesis by (simp add: f)
  qed
qed

lemma first_short_None:
  assumes "stock_covers d its"
  shows "first_short d its = None"
proof -
  have "\<not> short_of d its pid" if "pid \<in> productId ` set its" for pid
  proof (cases "product_findUnique d pid")
    case None
    then show ?thesis by (simp add: short_of_def)
  next
    case (Some p)
    then have "p \<in> set (products d)" "p_id p = pid" by (simp_all add: product_findUnique_Some)
    with assms that have "requested its pid \<le> stockLevel p" by (auto simp: stock_covers_iff)
    with Some show ?thesis by (simp add: short_of_def)
  qed
  then show ?thesis by (simp add: first_short_def find_None_iff set_new_Set)
qed

lemma first_short_Some:
  assumes pk: "product_ids_unique d"
    and "p \<in> set (products d)" "p_id p \<in> productId ` set its" "stockLevel p < requested its (p_id p)"
  shows "\<exists>q. first_short d its = Some (p_id q) \<and> product_findUnique d (p_id q) = Some q
           \<and> q \<in> set (products d) \<and> p_id q \<in> productId ` set its
           \<and> stockLevel q < requested its (p_id q)"
proof -
  from assms(1,2) have fp: "product_findUnique d (p_id p) = Some p"
    by (rule product_findUnique_member)
  with assms(4) have "short_of d its (p_id p)" by (simp add: short_of_def)
  moreover from assms(3) have "p_id p \<in> set (new_Set (map productId its))"
    by (simp add: set_new_Set)
  ultimately have "first_short d its \<noteq> None"
    by (auto simp: first_short_def find_None_iff)
  then obtain pid where s: "first_short d its = Some pid" by auto
  then have m: "pid \<in> set (new_Set (map productId its))" and sh: "short_of d its pid"
    by (auto simp: first_short_def find_Some_iff)
  from sh obtain q where q: "product_findUnique d pid = Some q" "stockLevel q < requested its pid"
    by (auto simp: short_of_def split: option.splits)
  from q(1) have "q \<in> set (products d)" "p_id q = pid"
    by (simp_all add: product_findUnique_Some)
  with s q m show ?thesis by (auto simp: set_new_Set)
qed

lemma check_stock_passes:
  assumes "quantities_positive its" and "stock_covers d its"
  shows "check_stock (product_findMany_in d (new_Set (map productId its))) (productQuantities its) = None"
  by (simp add: check_stock_first_short[OF assms(1)] first_short_None[OF assms(2)])

lemma check_stock_fails:
  assumes pk: "product_ids_unique d" and pos: "quantities_positive its"
    and short: "\<not> stock_covers d its"
  shows "\<exists>p \<in> set (products d). p_id p \<in> productId ` set its
           \<and> stockLevel p < requested its (p_id p)
           \<and> first_short d its = Some (p_id p)
           \<and> check_stock (product_findMany_in d (new_Set (map productId its))) (productQuantities its)
               = Some \<lparr>statusCode = 400,
                        json = InsufficientStockOrder (p_name p) (stockLevel p)
                                 (js_requested its (p_id p))\<rparr>"
proof -
  from short obtain p where "p \<in> set (products d)" "p_id p \<in> productId ` set its"
      "stockLevel p < requested its (p_id p)"
    by (auto simp: stock_covers_iff)
  from first_short_Some[OF pk this] obtain q where
    q: "first_short d its = Some (p_id q)" "product_findUnique d (p_id q) = Some q"
       "q \<in> set (products d)" "p_id q \<in> productId ` set its"
       "stockLevel q < requested its (p_id q)"
    by blast
  then show ?thesis
    by (intro bexI[of _ q]) (simp_all add: check_stock_first_short[OF pos])
qed

lemma orderItemsData_findMany:
  assumes "all_products_exist d its"
  shows "orderItemsData (product_findMany_in d (new_Set (map productId its))) its 0 =
           Inr (sum_list (map (\<lambda>r. priceAtTime r * of_int (oi_quantity r)) (map (line_row d) its)),
                map (line_row d) its)"
proof -
  let ?ps = "product_findMany_in d (new_Set (map productId its))"
  have f: "find (\<lambda>p. p_id p = productId i) ?ps = product_findUnique d (productId i)" if "i \<in> set its" for i
    using that by (simp add: find_findMany)
  have "list_all (\<lambda>i. find (\<lambda>p. p_id p = productId i) ?ps \<noteq> None) its"
    using assms by (simp add: list_all_iff f all_products_exist_def)
  from orderItemsData_ok[OF this, of 0]
  have "orderItemsData ?ps its 0 =
      Inr (sum_list (map (\<lambda>r. priceAtTime r * of_int (oi_quantity r)) 
        (map (\<lambda>i. \<lparr>oi_productId = productId i, oi_quantity = quantity i,
                          priceAtTime = (case find (\<lambda>p. p_id p = productId i) ?ps of None \<Rightarrow> 0 | Some p \<Rightarrow> price p)\<rparr>) its)),
          map (\<lambda>i. \<lparr>oi_productId = productId i, oi_quantity = quantity i,
                          priceAtTime = (case find (\<lambda>p. p_id p = productId i) ?ps of None \<Rightarrow> 0 | Some p \<Rightarrow> price p)\<rparr>) its)"
    by auto
  moreover have "map (\<lambda>i. \<lparr>oi_productId = productId i, oi_quantity = quantity i,
                          priceAtTime = (case find (\<lambda>p. p_id p = productId i) ?ps of None \<Rightarrow> 0 | Some p \<Rightarrow> price p)\<rparr>) its
       = map (line_row d) its"
    by (rule map_cong) (simp_all add: f line_row_def)
  ultimately show ?thesis by simp
qed

lemma parse_order_Inr: "createOrderSchema_parse isUuid b = Inr data \<Longrightarrow> data = b"
  by (simp add: createOrderSchema_parse_def split: if_splits)

lemma parse_positive: "createOrderSchema_parse isUuid b = Inr data \<Longrightarrow> quantities_positive (items b)"
  by (simp add: createOrderSchema_parse_def quantities_positive_def list_all_iff split: if_splits)

lemma quantity_le_requested:
  "quantities_positive its \<Longrightarrow> i \<in> set its \<Longrightarrow> quantity i \<le> requested its (productId i)"
proof (induction its)
  case Nil
  then show ?case by simp
next
  case (Cons j its)
  from Cons.prems(1) have pos: "quantities_positive its" and j: "0 < quantity j"
    by (simp_all add: quantities_positive_def)
  note nn = requested_nonneg[OF pos, of "productId i"]
  show ?case
  proof (cases "i = j")
    case True
    with nn show ?thesis by (simp add: requested_Cons)
  next
    case False
    with Cons.prems(2) have "i \<in> set its" by simp
    from Cons.IH[OF pos this] j show ?thesis by (simp add: requested_Cons)
  qed
qed

lemma covered_quantity_fits:
  assumes "quantities_positive its" "all_products_exist d its" "stock_covers d its" "i \<in> set its"
  shows "fits_Int (quantity i)"
proof -
  from assms(2,4) obtain p where "product_findUnique d (productId i) = Some p"
    by (auto simp: all_products_exist_def list_all_iff)
  then have p: "p \<in> set (products d)" "p_id p = productId i"
    by (simp_all add: product_findUnique_Some)
  with assms(3,4) have "requested its (productId i) \<le> stockLevel p"
    by (auto simp: stock_covers_iff)
  moreover from assms(1,4) have "0 < quantity i"
    by (simp add: quantities_positive_def list_all_iff)
  ultimately show ?thesis
    using quantity_le_requested[OF assms(1,4)] stockLevel_upper[of p]
    by (simp add: fits_Int_def)
qed

lemma order_transaction_ok:
  assumes "product_ids_unique d"
    and "quantities_positive (items b)"
    and "all_products_exist d (items b)"
    and "stock_covers d (items b)"
    and "order_findUnique d oid = None"
    and "user_findUnique d userId \<noteq> None"
  shows "order_transaction userId oid b
           (sum_list (map (\<lambda>r. priceAtTime r * of_int (oi_quantity r)) (map (line_row d) (items b))))
           (map (line_row d) (items b)) d
         = Inr (include_order True (d\<lparr>orders := orders d @ [placed_order userId oid b d]\<rparr>)
                  (placed_order userId oid b d),
                placed_store userId oid b d)"
proof -
  let ?ord = "placed_order userId oid b d"
  let ?d1 = "d\<lparr>orders := orders d @ [?ord]\<rparr>"
  have fresh: "\<not> (\<exists>x \<in> set (orders d). o_id x = oid)"
    using assms(5) by (auto simp: order_findUnique_def find_None_iff)
  have fk: "\<not> (\<exists>i \<in> set (map (line_row d) (items b)). product_findUnique d (oi_productId i) = None)"
    using assms(3) by (auto simp: all_products_exist_def list_all_iff line_row_def)
  have fits: "\<not> (\<exists>i \<in> set (map (line_row d) (items b)). \<not> fits_Int (oi_quantity i))"
    using covered_quantity_fits[OF assms(2,3,4)] by (auto simp: line_row_def)
  have c: "order_create ?ord d = Inr ?d1"
    using fresh fk fits assms(6) by (simp add: order_create_def placed_order_def)
  have pk: "product_ids_unique ?d1" using assms(1) by (simp add: product_ids_unique_def)
  have u: "user_findUnique ?d1 userId \<noteq> None" using assms(6) by simp
  have e: "all_products_exist ?d1 (items b)" using assms(3) by (simp add: all_products_exist_def)
  have cov: "stock_covers ?d1 (items b)" using assms(4) by (simp add: stock_covers_def)
  show ?thesis
    unfolding order_transaction_def Let_def
    using c update_stock_ok[OF pk u e assms(2) cov, of oid]
    by (simp add: placed_order_def placed_store_def)
qed

lemma createOrder_success:
  assumes "product_ids_unique d"
    and "createOrderSchema_parse isUuid b = Inr b"
    and "all_products_exist d (items b)"
    and "stock_covers d (items b)"
    and "order_findUnique d oid = None"
    and "user_findUnique d userId \<noteq> None"
  shows "createOrder isUuid io oid userId b d =
     (let result = include_order True (d\<lparr>orders := orders d @ [placed_order userId oid b d]\<rparr>)
                     (placed_order userId oid b d);
          (evs, lines) = try_emit io (order_created_payload result) ''Failed to emit socket event''
      in \<lparr>response = \<lparr>statusCode = 201, json = OrderJson result\<rparr>,
          store = placed_store userId oid b d, emitted = evs, logged = lines\<rparr>)"
  unfolding createOrder_def Let_def
  using assms(2) findMany_length[OF assms(1), of "items b"] assms(3)
    check_stock_passes[OF parse_positive[OF assms(2)] assms(4)] orderItemsData_findMany[OF assms(3)]
    order_transaction_ok[OF assms(1) parse_positive[OF assms(2)] assms(3,4,5,6)]
  by simp

lemma find_snoc:
  "find P (xs @ [x]) = (case find P xs of None \<Rightarrow> (if P x then Some x else None) | Some y \<Rightarrow> Some y)"
  by (induction xs) auto

lemma placed_store_find_order:
  "order_findUnique d oid = None \<Longrightarrow>
   order_findUnique (placed_store userId oid b d) oid = Some (placed_order userId oid b d)"
  by (simp add: order_findUnique_def placed_store_def placed_order_def find_snoc)

lemma placed_store_stock:
  assumes "product_findUnique d pid = Some p"
    and "quantities_positive (items b)" and "stock_covers d (items b)"
  shows "stock_of (placed_store userId oid b d) pid = Some (stockLevel p - requested (items b) pid)"
proof -
  from assms(1) have p: "p \<in> set (products d)" "p_id p = pid"
    by (simp_all add: product_findUnique_Some)
  from covered_level(1)[OF assms(2,3) p(1)] p(2)
  have "stockLevel (p\<lparr>stockLevel_Int := to_Int (stockLevel p - requested (items b) pid)\<rparr>)
          = stockLevel p - requested (items b) pid"
    by (simp add: stockLevel_written)
  with assms(1) p(2) show ?thesis
    by (simp add: stock_of_def placed_store_def product_findUnique_def find_map_id)
qed

lemma createOrder_status_iff:
  assumes "product_ids_unique d"
    and "createOrderSchema_parse isUuid b = Inr b"
    and "all_products_exist d (items b)"
    and "order_findUnique d oid = None"
    and "user_findUnique d userId \<noteq> None"
  shows "statusCode (response (createOrder isUuid io oid userId b d)) = 201 \<longleftrightarrow> stock_covers d (items b)"
proof (cases "stock_covers d (items b)")
  case True
  from createOrder_success[OF assms(1,2,3) True assms(4,5)] True
  show ?thesis by (simp add: Let_def split: prod.splits)
next
  case False
  from check_stock_fails[OF assms(1) parse_positive[OF assms(2)] False] obtain r where
    c: "check_stock (product_findMany_in d (new_Set (map productId (items b))))
              (productQuantities (items b)) = Some r" and r: "statusCode r = 400"
    by auto
  have "response (createOrder isUuid io oid userId b d) = r"
    unfolding createOrder_def Let_def
    using assms(2) findMany_length[OF assms(1), of "items b"] assms(3) c
    by simp
  with r False show ?thesis by simp
qed

lemma createOrder_store_success:
  assumes "product_ids_unique d"
    and "createOrderSchema_parse isUuid b = Inr b"
    and "all_products_exist d (items b)"
    and "stock_covers d (items b)"
    and "order_findUnique d oid = None"
    and "user_findUnique d userId \<noteq> None"
  shows "store (createOrder isUuid io oid userId b d) = placed_store userId oid b d"
    and "statusCode (response (createOrder isUuid io oid userId b d)) = 201"
  by (simp_all add: createOrder_success[OF assms] Let_def split: prod.splits)

subsection \<open>Adjustments, the notifier and the invariants\<close>

lemma parse_adjustment_Inr:
  "createAdjustmentSchema_parse isUuid b = Inr data \<Longrightarrow> data = b"
  by (auto simp: createAdjustmentSchema_parse_def split: if_splits)

lemma js_add_fits:
  "fits_Int s \<Longrightarrow> fits_Int q \<Longrightarrow> js_add (Finite s) (Finite q) = Finite (s + q)"
proof -
  assume "fits_Int s" "fits_Int q"
  then have "\<bar>s + q\<bar> < 2 ^ 53" by (auto simp: fits_Int_def abs_less_iff)
  then show ?thesis by (simp only: js_add.simps round_double_exact)
qed

lemma adjustment_transaction_ok:
  assumes "product_findUnique d (ca_productId b) = Some p"
    and "user_findUnique d userId \<noteq> None"
    and "fits_Int (ca_quantity b)" and "fits_Int n"
  shows "adjustment_transaction userId b (Finite n) d =
     (let a = \<lparr>adj_productId = ca_productId b, adj_userId = userId,
                adj_quantity = ca_quantity b, adj_type = ca_type b, reason = ca_reason b\<rparr>
      in Inr ((include_adjustment (d\<lparr>adjustments := adjustments d @ [a]\<rparr>) a,
               p\<lparr>stockLevel_Int := to_Int n\<rparr>),
              d\<lparr>adjustments := adjustments d @ [a],
                products := map (\<lambda>q. if p_id q = ca_productId b
                                      then p\<lparr>stockLevel_Int := to_Int n\<rparr> else q)
                              (products d)\<rparr>))"
  using assms
  by (auto simp: adjustment_transaction_def Let_def inventoryAdjustment_create_def product_update_def
        write_stockLevel_def set_stockLevel_def)

lemma adjustment_transaction_Inr:
  assumes "adjustment_transaction userId b x d = Inr (r, d')"
  shows "\<exists>n p as. x = Finite n \<and> fits_Int n \<and> product_findUnique d (ca_productId b) = Some p
           \<and> snd r = p\<lparr>stockLevel_Int := to_Int n\<rparr>
           \<and> d' = d\<lparr>adjustments := as,
                      products := map (\<lambda>q. if p_id q = ca_productId b
                                            then p\<lparr>stockLevel_Int := to_Int n\<rparr> else q)
                                    (products d)\<rparr>"
  using assms
  by (auto simp: adjustment_transaction_def Let_def inventoryAdjustment_create_def product_update_def
        write_stockLevel_def set_stockLevel_def
        split: sum.splits option.splits if_splits js_number.splits)

lemma createAdjustment_success:
  assumes "createAdjustmentSchema_parse isUuid b = Inr b"
    and "product_findUnique d (ca_productId b) = Some p"
    and "\<not> sign_mismatch b"
    and "0 \<le> stockLevel p + ca_quantity b"
    and "fits_Int (ca_quantity b)"
    and "fits_Int (stockLevel p + ca_quantity b)"
    and "user_findUnique d userId \<noteq> None"
  shows "response (createAdjustment isUuid io userId b d) =
           \<lparr>statusCode = 201,
            json = AdjustmentJson
                     (include_adjustment
                        (d\<lparr>adjustments := adjustments d @
                             [\<lparr>adj_productId = ca_productId b, adj_userId = userId,
                               adj_quantity = ca_quantity b, adj_type = ca_type b,
                               reason = ca_reason b\<rparr>]\<rparr>)
                        \<lparr>adj_productId = ca_productId b, adj_userId = userId,
                         adj_quantity = ca_quantity b, adj_type = ca_type b,
                         reason = ca_reason b\<rparr>)
                     (stockLevel p + ca_quantity b)\<rparr>"
    and "store (createAdjustment isUuid io userId b d) =
           d\<lparr>adjustments := adjustments d @
                  [\<lparr>adj_productId = ca_productId b, adj_userId = userId,
                    adj_quantity = ca_quantity b, adj_type = ca_type b,
                    reason = ca_reason b\<rparr>],
             products := map (\<lambda>q. if p_id q = ca_productId b
                                   then p\<lparr>stockLevel_Int := to_Int (stockLevel p + ca_quantity b)\<rparr>
                                   else q)
                           (products d)\<rparr>"
  using assms(1,2,3,4) js_add_fits[OF stockLevel_fits assms(5), of p]
    adjustment_transaction_ok[OF assms(2,7,5,6)] stockLevel_written[OF assms(6), of p]
  by (auto simp: createAdjustment_def Let_def sign_mismatch_def split: prod.splits)

lemma try_emit_None: "try_emit None pl msg = ([], [(msg, Error ''Socket.io not initialized!'')])"
  by (simp add: try_emit_def getIO_def)

lemma createOrder_io:
  "response (createOrder isUuid io oid userId b d) = response (createOrder isUuid io' oid userId b d)"
  "store (createOrder isUuid io oid userId b d) = store (createOrder isUuid io' oid userId b d)"
  by (simp_all add: createOrder_def Let_def case_prod_beta split: sum.split option.split)

lemma createAdjustment_io:
  "response (createAdjustment isUuid io userId a d) = response (createAdjustment isUuid io' userId a d)"
  "store (createAdjustment isUuid io userId a d) = store (createAdjustment isUuid io' userId a d)"
  by (simp_all add: createAdjustment_def Let_def case_prod_beta split: sum.split option.split)

lemma emitted_None:
  "emitted (createOrder isUuid None oid userId b d) = []"
  "emitted (createAdjustment isUuid None userId a d) = []"
  by (simp_all add: createOrder_def createAdjustment_def Let_def case_prod_beta try_emit_None
        respond_def respond_500_def split: sum.split option.split)

lemma createOrder_store_cases:
  "store (createOrder isUuid io oid userId b d) = d
   \<or> (\<exists>amount rows result.
         createOrderSchema_parse isUuid b = Inr b
       \<and> length (product_findMany_in d (new_Set (map productId (items b))))
           = length (new_Set (map productId (items b)))
       \<and> check_stock (product_findMany_in d (new_Set (map productId (items b))))
            (productQuantities (items b)) = None
       \<and> order_transaction userId oid b amount rows d
           = Inr (result, store (createOrder isUuid io oid userId b d)))"
proof (cases "createOrderSchema_parse isUuid b")
  case (Inl e)
  then show ?thesis by (simp add: createOrder_def respond_def)
next
  case (Inr data)
  then have b: "createOrderSchema_parse isUuid b = Inr b" using parse_order_Inr by blast
  then show ?thesis
    by (simp add: createOrder_def Let_def case_prod_beta respond_def respond_500_def
          split: sum.split option.split) blast
qed

lemma order_transaction_Inr:
  "order_transaction userId oid b amount rows d = Inr (result, d') \<Longrightarrow>
   order_findUnique d oid = None \<and> user_findUnique d userId \<noteq> None"
  by (auto simp: order_transaction_def Let_def order_create_def order_findUnique_def find_None_iff
           split: sum.splits if_splits)

lemma createOrder_store:
  assumes pk: "product_ids_unique d"
  shows "store (createOrder isUuid io oid userId b d) = d
       \<or> (stock_covers d (items b) \<and> quantities_positive (items b)
          \<and> store (createOrder isUuid io oid userId b d) = placed_store userId oid b d)"
proof -
  from createOrder_store_cases[of isUuid io oid userId b d]
  consider "store (createOrder isUuid io oid userId b d) = d"
    | amount rows result where "createOrderSchema_parse isUuid b = Inr b"
       "length (product_findMany_in d (new_Set (map productId (items b))))
           = length (new_Set (map productId (items b)))"
       "check_stock (product_findMany_in d (new_Set (map productId (items b))))
            (productQuantities (items b)) = None"
       "order_transaction userId oid b amount rows d
           = Inr (result, store (createOrder isUuid io oid userId b d))"
    by blast
  then show ?thesis
  proof cases
    case 1
    then show ?thesis by simp
  next
    case 2
    from 2(2) have ex: "all_products_exist d (items b)" by (simp add: findMany_length[OF pk])
    note pos = parse_positive[OF 2(1)]
    have cov: "stock_covers d (items b)"
    proof (rule ccontr)
      assume "\<not> stock_covers d (items b)"
      from check_stock_fails[OF pk pos this] 2(3) show False by auto
    qed
    from order_transaction_Inr[OF 2(4)]
    have "order_findUnique d oid = None" "user_findUnique d userId \<noteq> None" by simp_all
    from createOrder_store_success(1)[OF pk 2(1) ex cov this] cov pos
    show ?thesis by simp
  qed
qed

lemma placed_store_invariants:
  assumes "product_ids_unique d" "stock_nonneg d" "stock_covers d (items b)"
    and "quantities_positive (items b)"
  shows "product_ids_unique (placed_store userId oid b d)"
    and "stock_nonneg (placed_store userId oid b d)"
proof -
  show "product_ids_unique (placed_store userId oid b d)"
    using assms(1) by (simp add: product_ids_unique_def placed_store_def comp_def)
  have "0 \<le> stockLevel (p\<lparr>stockLevel_Int := to_Int (stockLevel p - requested (items b) (p_id p))\<rparr>)"
    if "p \<in> set (products d)" for p
  proof -
    have "0 \<le> stockLevel p - requested (items b) (p_id p)"
    proof (cases "p_id p \<in> productId ` set (items b)")
      case True
      with assms(3) that show ?thesis by (auto simp: stock_covers_iff)
    next
      case False
      with assms(2) that show ?thesis by (simp add: requested_notin stock_nonneg_def list_all_iff)
    qed
    with covered_level(1)[OF assms(4,3) that] show ?thesis by (simp add: stockLevel_written)
  qed
  then show "stock_nonneg (placed_store userId oid b d)"
    by (simp add: stock_nonneg_def placed_store_def list_all_iff)
qed

lemma createOrder_invariants:
  assumes "product_ids_unique d" "stock_nonneg d"
  shows "product_ids_unique (store (createOrder isUuid io oid userId b d))
       \<and> stock_nonneg (store (createOrder isUuid io oid userId b d))"
  using createOrder_store[OF assms(1), of isUuid io oid userId b] assms
    placed_store_invariants[OF assms, of b userId oid]
  by auto

lemma createAdjustment_store_cases:
  "store (createAdjustment isUuid io userId b d) = d
   \<or> (\<exists>n p as. 0 \<le> n \<and> fits_Int n \<and> product_findUnique d (ca_productId b) = Some p
        \<and> store (createAdjustment isUuid io userId b d) =
            d\<lparr>adjustments := as,
              products := map (\<lambda>q. if p_id q = ca_productId b
                                    then p\<lparr>stockLevel_Int := to_Int n\<rparr> else q)
                            (products d)\<rparr>)"
proof (cases "createAdjustmentSchema_parse isUuid b")
  case (Inl e)
  then show ?thesis by (simp add: createAdjustment_def respond_def)
next
  case (Inr data)
  then have b: "createAdjustmentSchema_parse isUuid b = Inr b" using parse_adjustment_Inr by blast
  show ?thesis
  proof (cases "product_findUnique d (ca_productId b)")
    case None
    with b show ?thesis by (simp add: createAdjustment_def respond_def)
  next
    case (Some p)
    define x where "x = js_add (Finite (stockLevel p)) (Finite (ca_quantity b))"
    show ?thesis
    proof (cases "sign_mismatch b \<or> js_less x (Finite 0)")
      case True
      with b Some show ?thesis
        by (auto simp: createAdjustment_def respond_def sign_mismatch_def Let_def x_def)
    next
      case False
      show ?thesis
      proof (cases "adjustment_transaction userId b x d")
        case (Inl e)
        with b Some False show ?thesis
          by (auto simp: createAdjustment_def respond_500_def sign_mismatch_def Let_def x_def)
      next
        case (Inr r)
        obtain v d' where r: "r = (v, d')" by (cases r)
        from adjustment_transaction_Inr[OF Inr[unfolded r]] obtain n p' as where
          n: "x = Finite n" "fits_Int n" "product_findUnique d (ca_productId b) = Some p'"
             "d' = d\<lparr>adjustments := as,
                      products := map (\<lambda>q. if p_id q = ca_productId b
                                            then p'\<lparr>stockLevel_Int := to_Int n\<rparr> else q)
                                    (products d)\<rparr>"
          by blast
        from False n(1) have "0 \<le> n" by simp
        moreover have "store (createAdjustment isUuid io userId b d) = d'"
          using b Some False Inr r
          by (auto simp: createAdjustment_def sign_mismatch_def Let_def x_def split: prod.splits)
        ultimately show ?thesis using n by blast
      qed
    qed
  qed
qed

lemma createAdjustment_invariants:
  assumes "product_ids_unique d" "stock_nonneg d"
  shows "product_ids_unique (store (createAdjustment isUuid io userId b d))
       \<and> stock_nonneg (store (createAdjustment isUuid io userId b d))"
proof -
  from createAdjustment_store_cases[of isUuid io userId b d]
  consider "store (createAdjustment isUuid io userId b d) = d"
    | n p as where "0 \<le> n" "fits_Int n" "product_findUnique d (ca_productId b) = Some p"
       "store (createAdjustment isUuid io userId b d) =
            d\<lparr>adjustments := as,
              products := map (\<lambda>q. if p_id q = ca_productId b
                                    then p\<lparr>stockLevel_Int := to_Int n\<rparr> else q)
                            (products d)\<rparr>"
    by blast
  then show ?thesis
  proof cases
    case 1
    with assms show ?thesis by simp
  next
    case 2
    let ?p1 = "p\<lparr>stockLevel_Int := to_Int n\<rparr>"
    let ?ps = "map (\<lambda>q. if p_id q = ca_productId b then ?p1 else q) (products d)"
    from 2(3) have k: "p_id ?p1 = ca_productId b" by (simp add: product_findUnique_Some)
    have e: "map p_id ?ps = map p_id (products d)"
      using k by (simp add: comp_def)
    have "distinct (map p_id ?ps)"
      unfolding e using assms(1) by (simp only: product_ids_unique_def)
    moreover have "\<forall>q \<in> set ?ps. 0 \<le> stockLevel q"
      using assms(2) 2(1) stockLevel_written[OF 2(2), of p]
      by (auto simp: stock_nonneg_def list_all_iff)
    ultimately show ?thesis
      unfolding 2(4) by (simp add: product_ids_unique_def stock_nonneg_def list_all_iff)
  qed
qed

lemma exec_invariants:
  "product_ids_unique d \<Longrightarrow> stock_nonneg d \<Longrightarrow>
   product_ids_unique (exec isUuid io op d) \<and> stock_nonneg (exec isUuid io op d)"
  by (cases op) (simp_all add: createOrder_invariants createAdjustment_invariants)

lemma find_map_o_id:
  "(\<And>x. o_id (g x) = o_id x) \<Longrightarrow>
   find (\<lambda>x. o_id x = k) (map g xs) = map_option g (find (\<lambda>x. o_id x = k) xs)"
  by (induction xs) auto

lemma returned_order_getOrderById: "returned_order (getOrderById k d) = order_findUnique d k"
  by (simp add: returned_order_def getOrderById_def respond_def include_order_def split: option.split)

lemma getOrderById_store: "store (getOrderById k d) = d"
  by (simp add: getOrderById_def respond_def split: option.split)

lemma updateOrderStatus_store:
  "store (updateOrderStatus k s d) =
     d\<lparr>orders := map (\<lambda>x. if o_id x = k then x\<lparr>status := s\<rparr> else x) (orders d)\<rparr>"
proof (cases "order_findUnique d k")
  case None
  then have "\<forall>x \<in> set (orders d). o_id x \<noteq> k"
    by (simp add: order_findUnique_def find_None_iff)
  then have "map (\<lambda>x. if o_id x = k then x\<lparr>status := s\<rparr> else x) (orders d) = orders d"
    by (induction "orders d") (auto simp: map_idI)
  with None show ?thesis by (simp add: updateOrderStatus_def respond_def)
next
  case (Some ord)
  then show ?thesis by (simp add: updateOrderStatus_def order_update_def respond_def)
qed

lemma order_findUnique_status:
  "order_findUnique (d\<lparr>orders := map (\<lambda>x. if o_id x = k then x\<lparr>status := s\<rparr> else x) (orders d)\<rparr>) k'
     = map_option (\<lambda>x. if o_id x = k then x\<lparr>status := s\<rparr> else x) (order_findUnique d k')"
  by (simp add: order_findUnique_def find_map_o_id)

lemma updateProduct_orders: "orders (store (updateProduct pid b d)) = orders d"
  by (simp add: updateProduct_def product_update_def respond_def respond_500_def
        split: sum.split option.split)

lemma createAdjustment_orders: "orders (store (createAdjustment isUuid io userId a d)) = orders d"
  using createAdjustment_store_cases[of isUuid io userId a d] by auto

lemma update_stock_orders:
  "update_stock userId oid its d = Inr d' \<Longrightarrow> orders d' = orders d"
proof (induction its arbitrary: d)
  case Nil
  then show ?case by simp
next
  case (Cons i its)
  from Cons.prems obtain u d1 d2 where
    s1: "product_update (productId i) (decrement_stockLevel (quantity i)) d = Inr (u, d1)"
    and s2: "inventoryAdjustment_create
               \<lparr>adj_productId = productId i, adj_userId = userId, adj_quantity = - quantity i,
                adj_type = OUT, reason = Some (''Order '' @ oid)\<rparr> d1 = Inr d2"
    and s3: "update_stock userId oid its d2 = Inr d'"
    by (auto split: sum.splits)
  from s1 have "orders d1 = orders d"
    by (auto simp: product_update_def split: option.splits sum.splits)
  moreover from s2 have "orders d2 = orders d1"
    by (auto simp: inventoryAdjustment_create_def split: if_splits)
  ultimately show ?case using Cons.IH[OF s3] by simp
qed

lemma order_transaction_orders:
  assumes "order_transaction userId oid b amount rows d = Inr (result, d')"
  shows "\<exists>ord. orders d' = orders d @ [ord]"
proof -
  from assms obtain ord d1 where c: "order_create ord d = Inr d1"
    and u: "update_stock userId oid (items b) d1 = Inr d'"
    by (auto simp: order_transaction_def Let_def split: sum.splits)
  from c have "orders d1 = orders d @ [ord]"
    by (auto simp: order_create_def split: if_splits)
  with update_stock_orders[OF u] show ?thesis by simp
qed

lemma createOrder_keeps_orders:
  assumes "order_findUnique d k = Some ord"
  shows "order_findUnique (store (createOrder isUuid io oid userId b d)) k = Some ord"
proof -
  from createOrder_store_cases[of isUuid io oid userId b d]
  consider "store (createOrder isUuid io oid userId b d) = d"
    | amount rows result where "order_transaction userId oid b amount rows d
           = Inr (result, store (createOrder isUuid io oid userId b d))"
    by blast
  then show ?thesis
  proof cases
    case 1
    with assms show ?thesis by simp
  next
    case 2
    from order_transaction_orders[OF 2] obtain new where
      "orders (store (createOrder isUuid io oid userId b d)) = orders d @ [new]" by blast
    with assms show ?thesis by (simp add: order_findUnique_def find_snoc)
  qed
qed

section \<open>The claims\<close>

text \<open>
  C2. From a store where every stock level is at least 0 (and product ids are unique,
  as the primary key has it), after any sequence of \<open>createOrder\<close> and
  \<open>createAdjustment\<close> requests executed one after the other, every stock level is at
  least 0 in every committed state: the store before the first request and after each
  one. A request that would make a stock level negative leaves the store as it was.
\<close>

theorem stock_never_negative:
  assumes "product_ids_unique d" and "stock_nonneg d"
  shows "list_all stock_nonneg (committed_states isUuid io d ops)"
  using assms
proof (induction ops arbitrary: d)
  case Nil
  then show ?case by simp
next
  case (Cons op ops)
  from exec_invariants[OF Cons.prems, of isUuid io op]
  have "list_all stock_nonneg (committed_states isUuid io (exec isUuid io op d) ops)"
    by (intro Cons.IH) simp_all
  with Cons.prems(2) show ?case by simp
qed

theorem stock_never_negative_witness:
  "product_ids_unique demo_db \<and> stock_nonneg demo_db
   \<and> list_all stock_nonneg
        (committed_states nonempty None demo_db
           [PlaceOrder ''o1'' ''u1'' (order_of [line ''P'' 4, line ''P'' 3]),
            Adjust ''u1'' (adjustment_of ''Q'' (- 3) OUT),
            PlaceOrder ''o2'' ''u1'' (order_of [line ''Q'' 1]),
            Adjust ''u1'' (adjustment_of ''P'' (- 5) OUT)])
   \<and> map (\<lambda>s. (stock_of s ''P'', stock_of s ''Q''))
        (committed_states nonempty None demo_db
           [PlaceOrder ''o1'' ''u1'' (order_of [line ''P'' 4, line ''P'' 3]),
            Adjust ''u1'' (adjustment_of ''Q'' (- 3) OUT),
            PlaceOrder ''o2'' ''u1'' (order_of [line ''Q'' 1]),
            Adjust ''u1'' (adjustment_of ''P'' (- 5) OUT)])
       = [(Some 10, Some 3), (Some 3, Some 3), (Some 3, Some 0), (Some 3, Some 0),
          (Some 3, Some 0)]"
proof -
  have h1: "product_ids_unique demo_db" by code_simp
  have h2: "stock_nonneg demo_db" by code_simp
  have e: "map (\<lambda>s. (stock_of s ''P'', stock_of s ''Q''))
        (committed_states nonempty None demo_db
           [PlaceOrder ''o1'' ''u1'' (order_of [line ''P'' 4, line ''P'' 3]),
            Adjust ''u1'' (adjustment_of ''Q'' (- 3) OUT),
            PlaceOrder ''o2'' ''u1'' (order_of [line ''Q'' 1]),
            Adjust ''u1'' (adjustment_of ''P'' (- 5) OUT)])
       = [(Some 10, Some 3), (Some 3, Some 3), (Some 3, Some 0), (Some 3, Some 0),
          (Some 3, Some 0)]"
    by code_simp
  from stock_never_negative[OF h1 h2, of nonempty None] h1 h2 e
  show ?thesis by blast
qed

text \<open>
  C3, as amended. For every order request (that passes the schema and names existing
  products only) in which the requested quantity of some product, summed over the
  lines, exceeds its \<open>stockLevel\<close>, \<open>createOrder\<close> answers 400 with the name of such a
  product, its \<open>stockLevel\<close> and the requested quantity as the handler sums it, and the
  store is as before: no Order, no OrderItem, no adjustment, no change of stock; nothing
  is emitted. The figure is summed in JavaScript numbers (\<open>js_requested\<close>): it is the
  sum of the lines when that is below \<open>2 ^ 53\<close>, and a number of at least \<open>2 ^ 53\<close>
  otherwise (\<open>stands_for\<close>). When several products are short, the one reported is the
  first in the order of the lines (\<open>first_short\<close>).
\<close>

theorem createOrder_insufficient_stock:
  assumes "product_ids_unique d"
    and "createOrderSchema_parse isUuid b = Inr b"
    and "all_products_exist d (items b)"
    and "\<exists>p \<in> set (products d). p_id p \<in> productId ` set (items b)
            \<and> stockLevel p < requested (items b) (p_id p)"
  shows "\<exists>p \<in> set (products d). p_id p \<in> productId ` set (items b)
           \<and> stockLevel p < requested (items b) (p_id p)
           \<and> first_short d (items b) = Some (p_id p)
           \<and> createOrder isUuid io oid userId b d =
                 \<lparr>response = \<lparr>statusCode = 400,
                               json = InsufficientStockOrder (p_name p) (stockLevel p)
                                        (js_requested (items b) (p_id p))\<rparr>,
                  store = d, emitted = [], logged = []\<rparr>
           \<and> stands_for (js_requested (items b) (p_id p)) (requested (items b) (p_id p))"
proof -
  note pos = parse_positive[OF assms(2)]
  from assms(4) first_short_Some[OF assms(1)] obtain q where
    q: "first_short d (items b) = Some (p_id q)" "product_findUnique d (p_id q) = Some q"
       "q \<in> set (products d)" "p_id q \<in> productId ` set (items b)"
       "stockLevel q < requested (items b) (p_id q)"
    by blast
  have c: "check_stock (product_findMany_in d (new_Set (map productId (items b))))
              (productQuantities (items b))
            = Some \<lparr>statusCode = 400,
                     json = InsufficientStockOrder (p_name q) (stockLevel q)
                              (js_requested (items b) (p_id q))\<rparr>"
    by (simp add: check_stock_first_short[OF pos] q(1,2))
  have "createOrder isUuid io oid userId b d =
          \<lparr>response = \<lparr>statusCode = 400,
                        json = InsufficientStockOrder (p_name q) (stockLevel q)
                                 (js_requested (items b) (p_id q))\<rparr>,
           store = d, emitted = [], logged = []\<rparr>"
    unfolding createOrder_def Let_def
    using assms(2) findMany_length[OF assms(1), of "items b"] assms(3) c
    by simp
  with q js_requested_stands[OF pos q(4)] show ?thesis by blast
qed

theorem createOrder_insufficient_stock_witness:
  "product_ids_unique demo_db
   \<and> createOrderSchema_parse nonempty (order_of [line ''Q'' 2, line ''P'' 11, line ''Q'' 2])
        = Inr (order_of [line ''Q'' 2, line ''P'' 11, line ''Q'' 2])
   \<and> all_products_exist demo_db (items (order_of [line ''Q'' 2, line ''P'' 11, line ''Q'' 2]))
   \<and> (\<exists>p \<in> set (products demo_db).
          p_id p \<in> productId ` set (items (order_of [line ''Q'' 2, line ''P'' 11, line ''Q'' 2]))
          \<and> stockLevel p < requested (items (order_of [line ''Q'' 2, line ''P'' 11, line ''Q'' 2])) (p_id p))
   \<and> first_short demo_db (items (order_of [line ''Q'' 2, line ''P'' 11, line ''Q'' 2])) = Some ''Q''
   \<and> requested (items (order_of [line ''Q'' 2, line ''P'' 11, line ''Q'' 2])) ''Q'' = 4
   \<and> createOrder nonempty None ''o1'' ''u1'' (order_of [line ''Q'' 2, line ''P'' 11, line ''Q'' 2]) demo_db =
         \<lparr>response = \<lparr>statusCode = 400, json = InsufficientStockOrder ''Gadget'' 3 (Finite 4)\<rparr>,
          store = demo_db, emitted = [], logged = []\<rparr>"
proof -
  let ?b = "order_of [line ''Q'' 2, line ''P'' 11, line ''Q'' 2]"
  have h1: "product_ids_unique demo_db" by code_simp
  have h2: "createOrderSchema_parse nonempty ?b = Inr ?b" by code_simp
  have h3: "all_products_exist demo_db (items ?b)" by code_simp
  have h4: "\<exists>p \<in> set (products demo_db). p_id p \<in> productId ` set (items ?b)
            \<and> stockLevel p < requested (items ?b) (p_id p)" by code_simp
  have e: "first_short demo_db (items ?b) = Some ''Q''" by code_simp
  have r: "requested (items ?b) ''Q'' = 4" by code_simp
  from createOrder_insufficient_stock[OF h1 h2 h3 h4, of None "''o1''" "''u1''"]
  obtain p where p: "p \<in> set (products demo_db)" "first_short demo_db (items ?b) = Some (p_id p)"
     and c: "createOrder nonempty None ''o1'' ''u1'' ?b demo_db =
                 \<lparr>response = \<lparr>statusCode = 400,
                               json = InsufficientStockOrder (p_name p) (stockLevel p)
                                        (js_requested (items ?b) (p_id p))\<rparr>,
                  store = demo_db, emitted = [], logged = []\<rparr>" by blast
  from p(1) have "p = demo_P \<or> p = demo_Q" by (simp add: demo_db_def)
  moreover have "p_id demo_P \<noteq> ''Q''" by code_simp
  ultimately have "p = demo_Q" using p(2) e by auto
  moreover have "p_name demo_Q = ''Gadget''" "stockLevel demo_Q = 3"
    "js_requested (items ?b) (p_id demo_Q) = Finite 4"
    by code_simp+
  ultimately show ?thesis using h1 h2 h3 h4 e r c by simp
qed

text \<open>
  C3, as stated, fails: for the lines \<open>Q: 9007199254740991\<close> and \<open>Q: 2\<close>, which pass the
  schema, on a stock of 3, the quantity requested of \<open>Q\<close> is 9007199254740993, and the
  response carries 9007199254740992: the handler adds the quantities as JavaScript
  numbers, and the sum is rounded.
\<close>

theorem createOrder_insufficient_stock_counterexample:
  "createOrderSchema_parse nonempty (order_of [line ''Q'' 9007199254740991, line ''Q'' 2])
     = Inr (order_of [line ''Q'' 9007199254740991, line ''Q'' 2])
   \<and> stock_of demo_db ''Q'' = Some 3
   \<and> requested (items (order_of [line ''Q'' 9007199254740991, line ''Q'' 2])) ''Q''
       = 9007199254740993
   \<and> response (createOrder nonempty None ''o1'' ''u1''
                  (order_of [line ''Q'' 9007199254740991, line ''Q'' 2]) demo_db)
       = \<lparr>statusCode = 400,
          json = InsufficientStockOrder ''Gadget'' 3 (Finite 9007199254740992)\<rparr>"
  by code_simp

text \<open>
  C4. The stock check compares, for each product, the quantity summed over the lines of
  the request with the stock (\<open>stock_covers\<close>): with the other checks passed, the
  request succeeds exactly when the sums are covered. The writes are per line: one
  adjustment row for each line of the request, in order, with the negated quantity of
  the line, type \<open>OUT\<close> and reason \<open>Order <id>\<close>, and the stock of a product goes down
  by the sum of its lines. The scenario of the claim (P at 10, lines P: 4 and P: 3,
  stock 3 afterwards, adjustments of -4 and -3) is the witness.
\<close>

theorem createOrder_checks_sum_writes_lines:
  assumes "product_ids_unique d"
    and "createOrderSchema_parse isUuid b = Inr b"
    and "all_products_exist d (items b)"
    and "order_findUnique d oid = None"
    and "user_findUnique d userId \<noteq> None"
  shows "(statusCode (response (createOrder isUuid io oid userId b d)) = 201
            \<longleftrightarrow> stock_covers d (items b))
       \<and> (stock_covers d (items b) \<longrightarrow>
            adjustments (store (createOrder isUuid io oid userId b d)) =
              adjustments d @
              map (\<lambda>i. \<lparr>adj_productId = productId i, adj_userId = userId,
                         adj_quantity = - quantity i, adj_type = OUT,
                         reason = Some (''Order '' @ oid)\<rparr>) (items b)
          \<and> (\<forall>pid p. product_findUnique d pid = Some p \<longrightarrow>
                stock_of (store (createOrder isUuid io oid userId b d)) pid =
                  Some (stockLevel p - requested (items b) pid)))"
proof (intro conjI impI allI)
  show "statusCode (response (createOrder isUuid io oid userId b d)) = 201
            \<longleftrightarrow> stock_covers d (items b)"
    by (rule createOrder_status_iff[OF assms])
next
  assume c: "stock_covers d (items b)"
  have s: "store (createOrder isUuid io oid userId b d) = placed_store userId oid b d"
    by (rule createOrder_store_success(1)[OF assms(1,2,3) c assms(4,5)])
  show "adjustments (store (createOrder isUuid io oid userId b d)) =
              adjustments d @
              map (\<lambda>i. \<lparr>adj_productId = productId i, adj_userId = userId,
                         adj_quantity = - quantity i, adj_type = OUT,
                         reason = Some (''Order '' @ oid)\<rparr>) (items b)"
    unfolding s by (simp add: placed_store_def line_adjustment_def)
  fix pid p
  assume "product_findUnique d pid = Some p"
  then show "stock_of (store (createOrder isUuid io oid userId b d)) pid =
                  Some (stockLevel p - requested (items b) pid)"
    unfolding s by (rule placed_store_stock[OF _ parse_positive[OF assms(2)] c])
qed

theorem createOrder_checks_sum_writes_lines_witness:
  "product_ids_unique demo_db
   \<and> createOrderSchema_parse nonempty (order_of [line ''P'' 4, line ''P'' 3])
        = Inr (order_of [line ''P'' 4, line ''P'' 3])
   \<and> all_products_exist demo_db (items (order_of [line ''P'' 4, line ''P'' 3]))
   \<and> order_findUnique demo_db ''o1'' = None
   \<and> user_findUnique demo_db ''u1'' \<noteq> None
   \<and> stock_covers demo_db (items (order_of [line ''P'' 4, line ''P'' 3]))
   \<and> stock_of demo_db ''P'' = Some 10
   \<and> statusCode (response (createOrder nonempty None ''o1'' ''u1''
                              (order_of [line ''P'' 4, line ''P'' 3]) demo_db)) = 201
   \<and> stock_of (store (createOrder nonempty None ''o1'' ''u1''
                        (order_of [line ''P'' 4, line ''P'' 3]) demo_db)) ''P'' = Some 3
   \<and> adjustments (store (createOrder nonempty None ''o1'' ''u1''
                           (order_of [line ''P'' 4, line ''P'' 3]) demo_db)) =
       [\<lparr>adj_productId = ''P'', adj_userId = ''u1'', adj_quantity = - 4, adj_type = OUT,
          reason = Some ''Order o1''\<rparr>,
        \<lparr>adj_productId = ''P'', adj_userId = ''u1'', adj_quantity = - 3, adj_type = OUT,
          reason = Some ''Order o1''\<rparr>]"
proof -
  let ?b = "order_of [line ''P'' 4, line ''P'' 3]"
  have h1: "product_ids_unique demo_db" by code_simp
  have h2: "createOrderSchema_parse nonempty ?b = Inr ?b" by code_simp
  have h3: "all_products_exist demo_db (items ?b)" by code_simp
  have h4: "order_findUnique demo_db ''o1'' = None" by code_simp
  have h5: "user_findUnique demo_db ''u1'' \<noteq> None" by code_simp
  have h6: "stock_covers demo_db (items ?b)" by code_simp
  have e0: "stock_of demo_db ''P'' = Some 10" by code_simp
  have e1: "product_findUnique demo_db ''P'' = Some demo_P" by code_simp
  have e2: "stockLevel demo_P - requested (items ?b) ''P'' = 3" by code_simp
  have e3: "adjustments demo_db @
              map (\<lambda>i. \<lparr>adj_productId = productId i, adj_userId = ''u1'',
                         adj_quantity = - quantity i, adj_type = OUT,
                         reason = Some (''Order '' @ ''o1'')\<rparr>) (items ?b) =
       [\<lparr>adj_productId = ''P'', adj_userId = ''u1'', adj_quantity = - 4, adj_type = OUT,
          reason = Some ''Order o1''\<rparr>,
        \<lparr>adj_productId = ''P'', adj_userId = ''u1'', adj_quantity = - 3, adj_type = OUT,
          reason = Some ''Order o1''\<rparr>]" by code_simp
  note t = createOrder_checks_sum_writes_lines[OF h1 h2 h3 h4 h5, of None]
  from t h6 have "statusCode (response (createOrder nonempty None ''o1'' ''u1'' ?b demo_db)) = 201"
    by blast
  moreover from t h6 e1 have "stock_of (store (createOrder nonempty None ''o1'' ''u1'' ?b demo_db)) ''P''
      = Some (stockLevel demo_P - requested (items ?b) ''P'')" by blast
  moreover from t h6 have "adjustments (store (createOrder nonempty None ''o1'' ''u1'' ?b demo_db)) =
     adjustments demo_db @
              map (\<lambda>i. \<lparr>adj_productId = productId i, adj_userId = ''u1'',
                         adj_quantity = - quantity i, adj_type = OUT,
                         reason = Some (''Order '' @ ''o1'')\<rparr>) (items ?b)" by blast
  ultimately show ?thesis using h1 h2 h3 h4 h5 h6 e0 e2 e3 by simp
qed

text \<open>
  C5, as amended. For every adjustment request whose quantity contradicts its type
  (\<open>IN\<close> with a quantity of at most 0, \<open>OUT\<close> with one of at least 0),
  \<open>createAdjustment\<close> changes nothing in the store and emits nothing. The product is
  looked up first: when it exists the response is the 400 validation error of the
  sign, and when it does not the response is 404 \<open>Product not found\<close>.
\<close>

theorem createAdjustment_sign_mismatch:
  assumes "createAdjustmentSchema_parse isUuid b = Inr b"
    and "sign_mismatch b"
  shows "store (createAdjustment isUuid io userId b d) = d
       \<and> emitted (createAdjustment isUuid io userId b d) = []
       \<and> response (createAdjustment isUuid io userId b d) =
           (case product_findUnique d (ca_productId b) of
              None \<Rightarrow> \<lparr>statusCode = 404, json = ErrorMessage ''Product not found''\<rparr>
            | Some p \<Rightarrow>
                \<lparr>statusCode = 400,
                 json = ErrorMessage
                   (if ca_type b = IN then ''IN adjustments must have positive quantity ''
                    else ''OUT adjustments must have negative quantity'')\<rparr>)"
  using assms
  by (cases "ca_type b")
     (auto simp: createAdjustment_def sign_mismatch_def respond_def split: option.splits)

theorem createAdjustment_sign_mismatch_witness:
  "createAdjustmentSchema_parse nonempty (adjustment_of ''P'' (- 5) IN)
     = Inr (adjustment_of ''P'' (- 5) IN)
   \<and> sign_mismatch (adjustment_of ''P'' (- 5) IN)
   \<and> store (createAdjustment nonempty None ''u1'' (adjustment_of ''P'' (- 5) IN) demo_db) = demo_db
   \<and> response (createAdjustment nonempty None ''u1'' (adjustment_of ''P'' (- 5) IN) demo_db) =
        \<lparr>statusCode = 400, json = ErrorMessage ''IN adjustments must have positive quantity ''\<rparr>"
proof -
  let ?b = "adjustment_of ''P'' (- 5) IN"
  have h1: "createAdjustmentSchema_parse nonempty ?b = Inr ?b" by code_simp
  have h2: "sign_mismatch ?b" by code_simp
  have e: "product_findUnique demo_db (ca_productId ?b) = Some demo_P" "ca_type ?b = IN"
    by code_simp+
  from createAdjustment_sign_mismatch[OF h1 h2, of None "''u1''" demo_db] h1 h2
  show ?thesis by (simp add: e)
qed

text \<open>
  C5, as stated, fails: an \<open>IN\<close> adjustment of -5 on a product id that no product
  has is answered by 404 \<open>Product not found\<close>, not by the validation error; the
  lookup in the store comes before the check of the sign.
\<close>

theorem createAdjustment_sign_mismatch_counterexample:
  "sign_mismatch (adjustment_of ''X'' (- 5) IN)
   \<and> product_findUnique demo_db ''X'' = None
   \<and> response (createAdjustment nonempty None ''u1'' (adjustment_of ''X'' (- 5) IN) demo_db) =
        \<lparr>statusCode = 404, json = ErrorMessage ''Product not found''\<rparr>"
  by code_simp

text \<open>
  C6, as amended. For every order request that passes the schema and names a product
  id that no product has, \<open>createOrder\<close> answers 404 with the fixed message
  \<open>One or more products not found\<close> and leaves the store as it was: no order, no
  items, no adjustments, no change of stock. The response does not say which ids are
  missing: the counterexample gives two requests that miss different ids and get the
  same response.
\<close>

theorem createOrder_unknown_product:
  assumes "product_ids_unique d"
    and "createOrderSchema_parse isUuid b = Inr b"
    and "\<not> all_products_exist d (items b)"
  shows "createOrder isUuid io oid userId b d =
           \<lparr>response = \<lparr>statusCode = 404, json = ErrorMessage ''One or more products not found''\<rparr>,
            store = d, emitted = [], logged = []\<rparr>"
  unfolding createOrder_def Let_def
  using assms(2) findMany_length[OF assms(1), of "items b"] assms(3)
  by (simp add: respond_def)

theorem createOrder_unknown_product_witness:
  "product_ids_unique demo_db
   \<and> createOrderSchema_parse nonempty (order_of [line ''P'' 1, line ''X'' 1])
        = Inr (order_of [line ''P'' 1, line ''X'' 1])
   \<and> \<not> all_products_exist demo_db (items (order_of [line ''P'' 1, line ''X'' 1]))
   \<and> createOrder nonempty None ''o1'' ''u1'' (order_of [line ''P'' 1, line ''X'' 1]) demo_db =
        \<lparr>response = \<lparr>statusCode = 404, json = ErrorMessage ''One or more products not found''\<rparr>,
         store = demo_db, emitted = [], logged = []\<rparr>"
proof -
  let ?b = "order_of [line ''P'' 1, line ''X'' 1]"
  have h1: "product_ids_unique demo_db" by code_simp
  have h2: "createOrderSchema_parse nonempty ?b = Inr ?b" by code_simp
  have h3: "\<not> all_products_exist demo_db (items ?b)" by code_simp
  from createOrder_unknown_product[OF h1 h2 h3, of None "''o1''" "''u1''"] h1 h2 h3
  show ?thesis by blast
qed

text \<open>
  C6, as stated, fails: the 404 response of a request that misses the id \<open>X\<close> and of
  one that misses the id \<open>Y\<close> is the same fixed message, so it does not report which
  requested ids have no matching product.
\<close>

theorem createOrder_unknown_product_counterexample:
  "response (createOrder nonempty None ''o1'' ''u1'' (order_of [line ''P'' 1, line ''X'' 1]) demo_db)
     = \<lparr>statusCode = 404, json = ErrorMessage ''One or more products not found''\<rparr>
   \<and> response (createOrder nonempty None ''o1'' ''u1'' (order_of [line ''P'' 1, line ''Y'' 1]) demo_db)
     = \<lparr>statusCode = 404, json = ErrorMessage ''One or more products not found''\<rparr>"
  by code_simp

text \<open>
  C7, as amended. For every adjustment request that passes the schema, on an existing
  product, with the sign its type asks for, a quantity that fits the 32-bit integer
  column of the adjustment and a resulting stock level that is at least 0 and fits the
  32-bit integer column of the stock (at most 2147483647), \<open>createAdjustment\<close> answers
  201 with the created adjustment and the new stock level, which is the previous
  \<open>stockLevel\<close> plus the signed quantity; the store has exactly one more adjustment
  row, with that quantity, and the product has the new level. The scenario of the claim
  (quantity 20, type \<open>IN\<close>, on a stock of 3, giving 23) is the witness.
\<close>

theorem createAdjustment_returns_new_level:
  assumes "createAdjustmentSchema_parse isUuid b = Inr b"
    and "product_findUnique d (ca_productId b) = Some p"
    and "\<not> sign_mismatch b"
    and "0 \<le> stockLevel p + ca_quantity b"
    and "fits_Int (ca_quantity b)"
    and "fits_Int (stockLevel p + ca_quantity b)"
    and "user_findUnique d userId \<noteq> None"
  shows "\<exists>view. response (createAdjustment isUuid io userId b d) =
                  \<lparr>statusCode = 201,
                   json = AdjustmentJson view (stockLevel p + ca_quantity b)\<rparr>
           \<and> av_adjustment view =
                 \<lparr>adj_productId = ca_productId b, adj_userId = userId,
                  adj_quantity = ca_quantity b, adj_type = ca_type b, reason = ca_reason b\<rparr>
           \<and> adjustments (store (createAdjustment isUuid io userId b d)) =
                 adjustments d @ [av_adjustment view]
           \<and> stock_of (store (createAdjustment isUuid io userId b d)) (ca_productId b) =
                 Some (stockLevel p + ca_quantity b)"
proof -
  note s = createAdjustment_success[OF assms, of io]
  from assms(2) have "p_id p = ca_productId b"
    by (simp add: product_findUnique_Some)
  with assms(2) stockLevel_written[OF assms(6), of p]
  have "stock_of (store (createAdjustment isUuid io userId b d)) (ca_productId b) =
                 Some (stockLevel p + ca_quantity b)"
    unfolding s(2) by (simp add: stock_of_def product_findUnique_def find_replace)
  then show ?thesis
    unfolding s by (simp add: include_adjustment_def)
qed

theorem createAdjustment_returns_new_level_witness:
  "createAdjustmentSchema_parse nonempty (adjustment_of ''Q'' 20 IN) = Inr (adjustment_of ''Q'' 20 IN)
   \<and> product_findUnique demo_db (ca_productId (adjustment_of ''Q'' 20 IN)) = Some demo_Q
   \<and> stockLevel demo_Q = 3
   \<and> \<not> sign_mismatch (adjustment_of ''Q'' 20 IN)
   \<and> 0 \<le> stockLevel demo_Q + ca_quantity (adjustment_of ''Q'' 20 IN)
   \<and> fits_Int (ca_quantity (adjustment_of ''Q'' 20 IN))
   \<and> fits_Int (stockLevel demo_Q + ca_quantity (adjustment_of ''Q'' 20 IN))
   \<and> user_findUnique demo_db ''u1'' \<noteq> None
   \<and> (\<exists>view. response (createAdjustment nonempty None ''u1'' (adjustment_of ''Q'' 20 IN) demo_db) =
                  \<lparr>statusCode = 201, json = AdjustmentJson view 23\<rparr>
           \<and> adj_quantity (av_adjustment view) = 20
           \<and> adjustments (store (createAdjustment nonempty None ''u1'' (adjustment_of ''Q'' 20 IN) demo_db)) =
                 [av_adjustment view]
           \<and> stock_of (store (createAdjustment nonempty None ''u1'' (adjustment_of ''Q'' 20 IN) demo_db)) ''Q'' =
                 Some 23)"
proof -
  let ?b = "adjustment_of ''Q'' 20 IN"
  have h1: "createAdjustmentSchema_parse nonempty ?b = Inr ?b" by code_simp
  have h2: "product_findUnique demo_db (ca_productId ?b) = Some demo_Q" by code_simp
  have h3: "\<not> sign_mismatch ?b" by code_simp
  have h4: "0 \<le> stockLevel demo_Q + ca_quantity ?b" by code_simp
  have h5: "fits_Int (ca_quantity ?b)" by code_simp
  have h6: "fits_Int (stockLevel demo_Q + ca_quantity ?b)" by code_simp
  have h7: "user_findUnique demo_db ''u1'' \<noteq> None" by code_simp
  have e: "stockLevel demo_Q = 3" "ca_quantity ?b = 20" "ca_productId ?b = ''Q''" "adjustments demo_db = []"
    by code_simp+
  from createAdjustment_returns_new_level[OF h1 h2 h3 h4 h5 h6 h7, of None]
  obtain view where
    "response (createAdjustment nonempty None ''u1'' ?b demo_db) =
        \<lparr>statusCode = 201, json = AdjustmentJson view (stockLevel demo_Q + ca_quantity ?b)\<rparr>"
    "av_adjustment view =
                 \<lparr>adj_productId = ca_productId ?b, adj_userId = ''u1'',
                  adj_quantity = ca_quantity ?b, adj_type = ca_type ?b, reason = ca_reason ?b\<rparr>"
    "adjustments (store (createAdjustment nonempty None ''u1'' ?b demo_db)) =
                 adjustments demo_db @ [av_adjustment view]"
    "stock_of (store (createAdjustment nonempty None ''u1'' ?b demo_db)) (ca_productId ?b) =
                 Some (stockLevel demo_Q + ca_quantity ?b)"
    by blast
  then have "\<exists>view. response (createAdjustment nonempty None ''u1'' ?b demo_db) =
                  \<lparr>statusCode = 201, json = AdjustmentJson view 23\<rparr>
           \<and> adj_quantity (av_adjustment view) = 20
           \<and> adjustments (store (createAdjustment nonempty None ''u1'' ?b demo_db)) =
                 [av_adjustment view]
           \<and> stock_of (store (createAdjustment nonempty None ''u1'' ?b demo_db)) ''Q'' =
                 Some 23"
    by (simp add: e)
  with h1 h2 h3 h4 h5 h6 h7 e(1) show ?thesis by blast
qed

text \<open>
  C7, as stated, fails: an \<open>IN\<close> adjustment of 2147483645 on the stock of 3 of \<open>Q\<close> is
  valid, the product exists and the prospective stock level, 2147483648, is at least 0,
  but it does not fit the 32-bit integer column of the stock: the write throws, the
  transaction is rolled back, and the answer is 500 with the store as it was.
\<close>

theorem createAdjustment_returns_new_level_counterexample:
  "createAdjustmentSchema_parse nonempty (adjustment_of ''Q'' 2147483645 IN)
     = Inr (adjustment_of ''Q'' 2147483645 IN)
   \<and> product_findUnique demo_db ''Q'' = Some demo_Q
   \<and> stockLevel demo_Q = 3
   \<and> \<not> sign_mismatch (adjustment_of ''Q'' 2147483645 IN)
   \<and> 0 \<le> stockLevel demo_Q + ca_quantity (adjustment_of ''Q'' 2147483645 IN)
   \<and> user_findUnique demo_db ''u1'' \<noteq> None
   \<and> response (createAdjustment nonempty None ''u1'' (adjustment_of ''Q'' 2147483645 IN) demo_db)
       = \<lparr>statusCode = 500, json = ErrorMessage ''Internal server error''\<rparr>
   \<and> store (createAdjustment nonempty None ''u1'' (adjustment_of ''Q'' 2147483645 IN) demo_db)
       = demo_db"
  by code_simp

text \<open>
  C8. An order whose transaction commits (the request passes the schema, its products
  exist, the stock covers it, the id is new and the caller has a user row) is answered
  201 with the committed Order row, which the store then holds, whatever the listener
  transport \<open>io\<close> does: uninitialised (\<open>getIO\<close> throws), an \<open>emit\<close> that throws, or
  one that delivers. With \<open>io\<close> uninitialised the failure is logged and nothing is
  emitted. An adjustment whose transaction commits is answered 201 with the created
  adjustment and the new stock level, and the store holds both, whatever \<open>io\<close> does.
  For every request, committed or not, the response and the store are the same for any
  two states of the transport.
\<close>

theorem notification_failure_absorbed:
  "(product_ids_unique d \<and> createOrderSchema_parse isUuid b = Inr b
      \<and> all_products_exist d (items b) \<and> stock_covers d (items b)
      \<and> order_findUnique d oid = None \<and> user_findUnique d userId \<noteq> None
    \<longrightarrow> (\<exists>ord. statusCode (response (createOrder isUuid io oid userId b d)) = 201
            \<and> returned_order (createOrder isUuid io oid userId b d) = Some ord
            \<and> order_findUnique (store (createOrder isUuid io oid userId b d)) oid = Some ord
            \<and> orderItems ord = map (line_row d) (items b))
        \<and> adjustments (store (createOrder isUuid io oid userId b d)) =
              adjustments d @ map (line_adjustment userId oid) (items b)
        \<and> logged (createOrder isUuid None oid userId b d)
              = [(''Failed to emit socket event'', Error ''Socket.io not initialized!'')])
   \<and> (createAdjustmentSchema_parse isUuid a = Inr a
      \<and> product_findUnique d (ca_productId a) = Some p \<and> \<not> sign_mismatch a
      \<and> 0 \<le> stockLevel p + ca_quantity a \<and> fits_Int (ca_quantity a)
      \<and> fits_Int (stockLevel p + ca_quantity a) \<and> user_findUnique d userId \<noteq> None
    \<longrightarrow> (\<exists>view. response (createAdjustment isUuid io userId a d) =
                    \<lparr>statusCode = 201,
                     json = AdjustmentJson view (stockLevel p + ca_quantity a)\<rparr>
            \<and> adjustments (store (createAdjustment isUuid io userId a d)) =
                  adjustments d @ [av_adjustment view])
        \<and> stock_of (store (createAdjustment isUuid io userId a d)) (ca_productId a) =
              Some (stockLevel p + ca_quantity a)
        \<and> logged (createAdjustment isUuid None userId a d)
              = [(''Failed to emit socket event:'', Error ''Socket.io not initialized!'')])
   \<and> response (createOrder isUuid io oid userId b d) = response (createOrder isUuid io' oid userId b d)
   \<and> store (createOrder isUuid io oid userId b d) = store (createOrder isUuid io' oid userId b d)
   \<and> response (createAdjustment isUuid io userId a d)
       = response (createAdjustment isUuid io' userId a d)
   \<and> store (createAdjustment isUuid io userId a d) = store (createAdjustment isUuid io' userId a d)
   \<and> emitted (createOrder isUuid None oid userId b d) = []
   \<and> emitted (createAdjustment isUuid None userId a d) = []"
proof (intro conjI impI createOrder_io createAdjustment_io emitted_None)
  assume h: "product_ids_unique d \<and> createOrderSchema_parse isUuid b = Inr b
      \<and> all_products_exist d (items b) \<and> stock_covers d (items b)
      \<and> order_findUnique d oid = None \<and> user_findUnique d userId \<noteq> None"
  then have hs: "product_ids_unique d" "createOrderSchema_parse isUuid b = Inr b"
    "all_products_exist d (items b)" "stock_covers d (items b)"
    "order_findUnique d oid = None" "user_findUnique d userId \<noteq> None"
    by simp_all
  note s = createOrder_success[OF hs]
  let ?ord = "placed_order userId oid b d"
  have "statusCode (response (createOrder isUuid io oid userId b d)) = 201"
    and "returned_order (createOrder isUuid io oid userId b d) = Some ?ord"
    and st: "store (createOrder isUuid io oid userId b d) = placed_store userId oid b d"
    by (simp_all add: s Let_def returned_order_def include_order_def split: prod.splits)
  moreover have "order_findUnique (placed_store userId oid b d) oid = Some ?ord"
    using hs(5) by (rule placed_store_find_order)
  moreover have "orderItems ?ord = map (line_row d) (items b)"
    by (simp add: placed_order_def)
  ultimately show "\<exists>ord. statusCode (response (createOrder isUuid io oid userId b d)) = 201
            \<and> returned_order (createOrder isUuid io oid userId b d) = Some ord
            \<and> order_findUnique (store (createOrder isUuid io oid userId b d)) oid = Some ord
            \<and> orderItems ord = map (line_row d) (items b)"
    by simp
  show "adjustments (store (createOrder isUuid io oid userId b d)) =
              adjustments d @ map (line_adjustment userId oid) (items b)"
    unfolding st by (simp add: placed_store_def)
  show "logged (createOrder isUuid None oid userId b d)
              = [(''Failed to emit socket event'', Error ''Socket.io not initialized!'')]"
    by (simp add: createOrder_success[OF hs] Let_def try_emit_None)
next
  assume h: "createAdjustmentSchema_parse isUuid a = Inr a
      \<and> product_findUnique d (ca_productId a) = Some p \<and> \<not> sign_mismatch a
      \<and> 0 \<le> stockLevel p + ca_quantity a \<and> fits_Int (ca_quantity a)
      \<and> fits_Int (stockLevel p + ca_quantity a) \<and> user_findUnique d userId \<noteq> None"
  then have hs: "createAdjustmentSchema_parse isUuid a = Inr a"
    "product_findUnique d (ca_productId a) = Some p" "\<not> sign_mismatch a"
    "0 \<le> stockLevel p + ca_quantity a" "fits_Int (ca_quantity a)"
    "fits_Int (stockLevel p + ca_quantity a)" "user_findUnique d userId \<noteq> None"
    by simp_all
  note s = createAdjustment_success[OF hs, of io]
  show "\<exists>view. response (createAdjustment isUuid io userId a d) =
                    \<lparr>statusCode = 201,
                     json = AdjustmentJson view (stockLevel p + ca_quantity a)\<rparr>
            \<and> adjustments (store (createAdjustment isUuid io userId a d)) =
                  adjustments d @ [av_adjustment view]"
    unfolding s by (simp add: include_adjustment_def)
  from hs(2) have "p_id p = ca_productId a" by (simp add: product_findUnique_Some)
  with hs(2) stockLevel_written[OF hs(6), of p]
  show "stock_of (store (createAdjustment isUuid io userId a d)) (ca_productId a) =
              Some (stockLevel p + ca_quantity a)"
    unfolding s(2) by (simp add: stock_of_def product_findUnique_def find_replace)
  show "logged (createAdjustment isUuid None userId a d)
              = [(''Failed to emit socket event:'', Error ''Socket.io not initialized!'')]"
    using hs(1,2,3,4) js_add_fits[OF stockLevel_fits hs(5), of p]
      adjustment_transaction_ok[OF hs(2,7,5,6)]
    by (auto simp: createAdjustment_def Let_def sign_mismatch_def try_emit_None)
qed

theorem notification_failure_absorbed_witness:
  "product_ids_unique demo_db
   \<and> createOrderSchema_parse nonempty (order_of [line ''P'' 4]) = Inr (order_of [line ''P'' 4])
   \<and> all_products_exist demo_db (items (order_of [line ''P'' 4]))
   \<and> stock_covers demo_db (items (order_of [line ''P'' 4]))
   \<and> order_findUnique demo_db ''o1'' = None
   \<and> user_findUnique demo_db ''u1'' \<noteq> None
   \<and> createAdjustmentSchema_parse nonempty (adjustment_of ''Q'' 20 IN) = Inr (adjustment_of ''Q'' 20 IN)
   \<and> product_findUnique demo_db (ca_productId (adjustment_of ''Q'' 20 IN)) = Some demo_Q
   \<and> \<not> sign_mismatch (adjustment_of ''Q'' 20 IN)
   \<and> 0 \<le> stockLevel demo_Q + ca_quantity (adjustment_of ''Q'' 20 IN)
   \<and> fits_Int (ca_quantity (adjustment_of ''Q'' 20 IN))
   \<and> fits_Int (stockLevel demo_Q + ca_quantity (adjustment_of ''Q'' 20 IN))
   \<and> statusCode (response (createOrder nonempty None ''o1'' ''u1''
                           (order_of [line ''P'' 4]) demo_db)) = 201
   \<and> returned_order (createOrder nonempty None ''o1'' ''u1'' (order_of [line ''P'' 4]) demo_db)
       = order_findUnique
           (store (createOrder nonempty None ''o1'' ''u1'' (order_of [line ''P'' 4]) demo_db)) ''o1''
   \<and> map_option orderItems
         (returned_order (createOrder nonempty None ''o1'' ''u1'' (order_of [line ''P'' 4]) demo_db))
       = Some [\<lparr>oi_productId = ''P'', oi_quantity = 4, priceAtTime = 5 / 2\<rparr>]
   \<and> logged (createOrder nonempty None ''o1'' ''u1'' (order_of [line ''P'' 4]) demo_db)
       = [(''Failed to emit socket event'', Error ''Socket.io not initialized!'')]
   \<and> response (createOrder nonempty None ''o1'' ''u1'' (order_of [line ''P'' 4]) demo_db)
       = response (createOrder nonempty (Some (\<lambda>ev. None)) ''o1'' ''u1''
                           (order_of [line ''P'' 4]) demo_db)
   \<and> store (createOrder nonempty None ''o1'' ''u1'' (order_of [line ''P'' 4]) demo_db)
       = store (createOrder nonempty (Some (\<lambda>ev. None)) ''o1'' ''u1''
                           (order_of [line ''P'' 4]) demo_db)
   \<and> statusCode (response (createAdjustment nonempty None ''u1''
                           (adjustment_of ''Q'' 20 IN) demo_db)) = 201
   \<and> stock_of (store (createAdjustment nonempty None ''u1'' (adjustment_of ''Q'' 20 IN) demo_db)) ''Q''
       = Some 23
   \<and> logged (createAdjustment nonempty None ''u1'' (adjustment_of ''Q'' 20 IN) demo_db)
       = [(''Failed to emit socket event:'', Error ''Socket.io not initialized!'')]
   \<and> response (createAdjustment nonempty None ''u1'' (adjustment_of ''Q'' 20 IN) demo_db)
       = response (createAdjustment nonempty (Some (\<lambda>ev. Some (Error ''closed''))) ''u1''
                           (adjustment_of ''Q'' 20 IN) demo_db)"
proof -
  let ?b = "order_of [line ''P'' 4]" and ?a = "adjustment_of ''Q'' 20 IN"
  let ?out = "createOrder nonempty None ''o1'' ''u1'' ?b demo_db"
  let ?adj = "createAdjustment nonempty None ''u1'' ?a demo_db"
  have h1: "product_ids_unique demo_db" by code_simp
  have h2: "createOrderSchema_parse nonempty ?b = Inr ?b" by code_simp
  have h3: "all_products_exist demo_db (items ?b)" by code_simp
  have h4: "stock_covers demo_db (items ?b)" by code_simp
  have h5: "order_findUnique demo_db ''o1'' = None" by code_simp
  have h6: "user_findUnique demo_db ''u1'' \<noteq> None" by code_simp
  have g1: "createAdjustmentSchema_parse nonempty ?a = Inr ?a" by code_simp
  have g2: "product_findUnique demo_db (ca_productId ?a) = Some demo_Q" by code_simp
  have g3: "\<not> sign_mismatch ?a" by code_simp
  have g4: "0 \<le> stockLevel demo_Q + ca_quantity ?a" by code_simp
  have g5: "fits_Int (ca_quantity ?a)" by code_simp
  have g6: "fits_Int (stockLevel demo_Q + ca_quantity ?a)" by code_simp
  have e: "map (line_row demo_db) (items ?b)
             = [\<lparr>oi_productId = ''P'', oi_quantity = 4, priceAtTime = 5 / 2\<rparr>]"
    "ca_productId ?a = ''Q''" "stockLevel demo_Q + ca_quantity ?a = 23"
    by code_simp+
  note t1 = notification_failure_absorbed[where d = demo_db and isUuid = nonempty and b = ?b
      and oid = "''o1''" and userId = "''u1''" and io = None and a = ?a and p = demo_Q
      and io' = "Some (\<lambda>ev. None)"]
  note t2 = notification_failure_absorbed[where d = demo_db and isUuid = nonempty and b = ?b
      and oid = "''o1''" and userId = "''u1''" and io = None and a = ?a and p = demo_Q
      and io' = "Some (\<lambda>ev. Some (Error ''closed''))"]
  from t1 h1 h2 h3 h4 h5 h6 obtain ord where
    o: "statusCode (response ?out) = 201" "returned_order ?out = Some ord"
       "order_findUnique (store ?out) ''o1'' = Some ord"
       "orderItems ord = map (line_row demo_db) (items ?b)"
    and l: "logged ?out = [(''Failed to emit socket event'', Error ''Socket.io not initialized!'')]"
    by blast
  from t1 g1 g2 g3 g4 g5 g6 h6 obtain view where
    v: "response ?adj = \<lparr>statusCode = 201,
                          json = AdjustmentJson view (stockLevel demo_Q + ca_quantity ?a)\<rparr>"
    and sa: "stock_of (store ?adj) (ca_productId ?a) = Some (stockLevel demo_Q + ca_quantity ?a)"
    and la: "logged ?adj = [(''Failed to emit socket event:'', Error ''Socket.io not initialized!'')]"
    by blast
  from t1 have i1: "response ?out = response (createOrder nonempty (Some (\<lambda>ev. None)) ''o1'' ''u1'' ?b demo_db)"
    and i2: "store ?out = store (createOrder nonempty (Some (\<lambda>ev. None)) ''o1'' ''u1'' ?b demo_db)"
    by blast+
  from t2 have i3: "response ?adj
      = response (createAdjustment nonempty (Some (\<lambda>ev. Some (Error ''closed''))) ''u1'' ?a demo_db)"
    by blast
  from o have f1: "returned_order ?out = order_findUnique (store ?out) ''o1''"
    and f2: "map_option orderItems (returned_order ?out)
               = Some [\<lparr>oi_productId = ''P'', oi_quantity = 4, priceAtTime = 5 / 2\<rparr>]"
    by (simp_all add: e(1))
  from v have f3: "statusCode (response ?adj) = 201" by simp
  from sa have f4: "stock_of (store ?adj) ''Q'' = Some 23" by (simp only: e(2,3))
  show ?thesis
    by (intro conjI h1 h2 h3 h4 h5 h6 g1 g2 g3 g4 g5 g6 o(1) f1 f2 l i1 i2 f3 f4 la i3)
qed

text \<open>
  C9. \<open>updateOrderStatus\<close> changes the \<open>status\<close> field of the order with the given id
  and nothing else in the store, so what \<open>getOrderById\<close> returns as \<open>totalAmount\<close> and
  as OrderItem rows (\<open>productId\<close>, \<open>quantity\<close>, \<open>priceAtTime\<close>) is the same before and
  after. An update of a product (of its price, among others) and a stock adjustment
  leave the Order row that \<open>getOrderById\<close> returns as it was, a later \<open>createOrder\<close>
  leaves the Order rows that exist as they are, and \<open>getOrderById\<close> does not change the
  store, so repeated retrievals return the same. In the example the price of \<open>P\<close>
  goes from 5/2 to 99 after the order \<open>o1\<close>: \<open>o1\<close> keeps its total of 10 and its
  \<open>priceAtTime\<close> of 5/2.
\<close>

theorem committed_order_is_frozen:
  "store (updateOrderStatus k s d) =
      d\<lparr>orders := map (\<lambda>x. if o_id x = k then x\<lparr>status := s\<rparr> else x) (orders d)\<rparr>
   \<and> map_option totalAmount (returned_order (getOrderById k' (store (updateOrderStatus k s d))))
       = map_option totalAmount (returned_order (getOrderById k' d))
   \<and> map_option orderItems (returned_order (getOrderById k' (store (updateOrderStatus k s d))))
       = map_option orderItems (returned_order (getOrderById k' d))
   \<and> returned_order (getOrderById k' (store (updateProduct pid b d)))
       = returned_order (getOrderById k' d)
   \<and> returned_order (getOrderById k' (store (createAdjustment isUuid io userId a d)))
       = returned_order (getOrderById k' d)
   \<and> (returned_order (getOrderById k' d) = Some ord \<longrightarrow>
        returned_order (getOrderById k' (store (createOrder isUuid io oid userId c d))) = Some ord)
   \<and> store (getOrderById k' d) = d"
proof -
  have "map_option totalAmount (order_findUnique (store (updateOrderStatus k s d)) k')
          = map_option totalAmount (order_findUnique d k')"
    and "map_option orderItems (order_findUnique (store (updateOrderStatus k s d)) k')
          = map_option orderItems (order_findUnique d k')"
    unfolding updateOrderStatus_store order_findUnique_status
    by (cases "order_findUnique d k'"; simp)+
  moreover have "order_findUnique (store (updateProduct pid b d)) k' = order_findUnique d k'"
    "order_findUnique (store (createAdjustment isUuid io userId a d)) k' = order_findUnique d k'"
    by (simp_all add: order_findUnique_def updateProduct_orders createAdjustment_orders)
  ultimately show ?thesis
    by (simp add: returned_order_getOrderById getOrderById_store updateOrderStatus_store
          createOrder_keeps_orders)
qed

theorem committed_order_is_frozen_witness:
  "map_option totalAmount (returned_order (getOrderById ''o1'' demo_db_o1)) = Some 10
   \<and> map_option (map priceAtTime \<circ> orderItems) (returned_order (getOrderById ''o1'' demo_db_o1))
       = Some [5 / 2]
   \<and> stock_of (store (updateProduct ''P'' (price_change 99) demo_db_o1)) ''P'' = Some 6
   \<and> map_option price (product_findUnique (store (updateProduct ''P'' (price_change 99) demo_db_o1)) ''P'')
       = Some 99
   \<and> returned_order (getOrderById ''o1'' (store (updateProduct ''P'' (price_change 99) demo_db_o1)))
       = returned_order (getOrderById ''o1'' demo_db_o1)
   \<and> map_option status (returned_order (getOrderById ''o1''
          (store (updateOrderStatus ''o1'' COMPLETED demo_db_o1)))) = Some COMPLETED
   \<and> map_option totalAmount (returned_order (getOrderById ''o1''
          (store (updateOrderStatus ''o1'' COMPLETED demo_db_o1)))) = Some 10
   \<and> returned_order (getOrderById ''o1''
          (store (createOrder nonempty None ''o2'' ''u1'' (order_of [line ''P'' 1]) demo_db_o1)))
       = returned_order (getOrderById ''o1'' demo_db_o1)"
proof -
  have e: "map_option totalAmount (returned_order (getOrderById ''o1'' demo_db_o1)) = Some 10"
    "map_option (map priceAtTime \<circ> orderItems) (returned_order (getOrderById ''o1'' demo_db_o1))
       = Some [5 / 2]"
    "stock_of (store (updateProduct ''P'' (price_change 99) demo_db_o1)) ''P'' = Some 6"
    "map_option price (product_findUnique (store (updateProduct ''P'' (price_change 99) demo_db_o1)) ''P'')
       = Some 99"
    "map_option status (returned_order (getOrderById ''o1''
          (store (updateOrderStatus ''o1'' COMPLETED demo_db_o1)))) = Some COMPLETED"
    by code_simp+
  from e(1) obtain ord where o: "returned_order (getOrderById ''o1'' demo_db_o1) = Some ord"
    by auto
  note t = committed_order_is_frozen[of "''o1''" COMPLETED demo_db_o1 "''o1''" "''P''"
      "price_change 99" nonempty None "''u1''" "adjustment_of ''P'' 1 IN" ord "''o2''"
      "order_of [line ''P'' 1]"]
  from t have f5: "returned_order (getOrderById ''o1'' (store (updateProduct ''P'' (price_change 99) demo_db_o1)))
       = returned_order (getOrderById ''o1'' demo_db_o1)"
    by blast
  from t have "map_option totalAmount (returned_order (getOrderById ''o1''
          (store (updateOrderStatus ''o1'' COMPLETED demo_db_o1))))
       = map_option totalAmount (returned_order (getOrderById ''o1'' demo_db_o1))"
    by blast
  with e(1) have f7: "map_option totalAmount (returned_order (getOrderById ''o1''
          (store (updateOrderStatus ''o1'' COMPLETED demo_db_o1)))) = Some 10"
    by (simp only:)
  from t o have "returned_order (getOrderById ''o1''
          (store (createOrder nonempty None ''o2'' ''u1'' (order_of [line ''P'' 1]) demo_db_o1)))
       = Some ord"
    by blast
  with o have f8: "returned_order (getOrderById ''o1''
          (store (createOrder nonempty None ''o2'' ''u1'' (order_of [line ''P'' 1]) demo_db_o1)))
       = returned_order (getOrderById ''o1'' demo_db_o1)"
    by (simp only:)
  show ?thesis
    by (intro conjI e(1) e(2) e(3) e(4) f5 e(5) f7 f8)
qed

text \<open>
  C10. The stock check is strict: when the quantity requested of each product, summed
  over the lines, equals the stock of that product, \<open>createOrder\<close> succeeds with 201 and
  leaves each of these products at stock 0.
\<close>

theorem createOrder_last_units:
  assumes "product_ids_unique d"
    and "createOrderSchema_parse isUuid b = Inr b"
    and "all_products_exist d (items b)"
    and "\<forall>p \<in> set (products d). p_id p \<in> productId ` set (items b)
            \<longrightarrow> requested (items b) (p_id p) = stockLevel p"
    and "order_findUnique d oid = None"
    and "user_findUnique d userId \<noteq> None"
  shows "statusCode (response (createOrder isUuid io oid userId b d)) = 201
       \<and> (\<forall>p \<in> set (products d). p_id p \<in> productId ` set (items b)
            \<longrightarrow> stock_of (store (createOrder isUuid io oid userId b d)) (p_id p) = Some 0)"
proof -
  from assms(4) have c: "stock_covers d (items b)" by (simp add: stock_covers_iff)
  note s = createOrder_store_success[OF assms(1,2,3) c assms(5,6), of io]
  have "stock_of (store (createOrder isUuid io oid userId b d)) (p_id p) = Some 0"
    if "p \<in> set (products d)" "p_id p \<in> productId ` set (items b)" for p
  proof -
    from that(1) assms(1) have "product_findUnique d (p_id p) = Some p"
      by (simp add: product_findUnique_def product_ids_unique_def find_distinct_id)
    from placed_store_stock[OF this parse_positive[OF assms(2)] c, of userId oid] assms(4) that
    show ?thesis unfolding s(1) by simp
  qed
  with s(2) show ?thesis by blast
qed

theorem createOrder_last_units_witness:
  "product_ids_unique demo_db
   \<and> createOrderSchema_parse nonempty (order_of [line ''P'' 4, line ''Q'' 3, line ''P'' 6])
        = Inr (order_of [line ''P'' 4, line ''Q'' 3, line ''P'' 6])
   \<and> all_products_exist demo_db (items (order_of [line ''P'' 4, line ''Q'' 3, line ''P'' 6]))
   \<and> requested (items (order_of [line ''P'' 4, line ''Q'' 3, line ''P'' 6])) ''P'' = 10
   \<and> stock_of demo_db ''P'' = Some 10
   \<and> requested (items (order_of [line ''P'' 4, line ''Q'' 3, line ''P'' 6])) ''Q'' = 3
   \<and> stock_of demo_db ''Q'' = Some 3
   \<and> order_findUnique demo_db ''o1'' = None
   \<and> user_findUnique demo_db ''u1'' \<noteq> None
   \<and> statusCode (response (createOrder nonempty None ''o1'' ''u1''
                   (order_of [line ''P'' 4, line ''Q'' 3, line ''P'' 6]) demo_db)) = 201
   \<and> stock_of (store (createOrder nonempty None ''o1'' ''u1''
                   (order_of [line ''P'' 4, line ''Q'' 3, line ''P'' 6]) demo_db)) ''P'' = Some 0
   \<and> stock_of (store (createOrder nonempty None ''o1'' ''u1''
                   (order_of [line ''P'' 4, line ''Q'' 3, line ''P'' 6]) demo_db)) ''Q'' = Some 0"
proof -
  let ?b = "order_of [line ''P'' 4, line ''Q'' 3, line ''P'' 6]"
  have h1: "product_ids_unique demo_db" by code_simp
  have h2: "createOrderSchema_parse nonempty ?b = Inr ?b" by code_simp
  have h3: "all_products_exist demo_db (items ?b)" by code_simp
  have h4: "\<forall>p \<in> set (products demo_db). p_id p \<in> productId ` set (items ?b)
            \<longrightarrow> requested (items ?b) (p_id p) = stockLevel p" by code_simp
  have h5: "order_findUnique demo_db ''o1'' = None" by code_simp
  have h6: "user_findUnique demo_db ''u1'' \<noteq> None" by code_simp
  have m: "demo_P \<in> set (products demo_db)" "demo_Q \<in> set (products demo_db)"
    "p_id demo_P = ''P''" "p_id demo_Q = ''Q''"
    "p_id demo_P \<in> productId ` set (items ?b)" "p_id demo_Q \<in> productId ` set (items ?b)"
    by code_simp+
  from createOrder_last_units[OF h1 h2 h3 h4 h5 h6, of None] m
  have "statusCode (response (createOrder nonempty None ''o1'' ''u1'' ?b demo_db)) = 201
     \<and> stock_of (store (createOrder nonempty None ''o1'' ''u1'' ?b demo_db)) ''P'' = Some 0
     \<and> stock_of (store (createOrder nonempty None ''o1'' ''u1'' ?b demo_db)) ''Q'' = Some 0"
    by metis
  moreover have "requested (items ?b) ''P'' = 10" "stock_of demo_db ''P'' = Some 10"
    "requested (items ?b) ''Q'' = 3" "stock_of demo_db ''Q'' = Some 3"
    by code_simp+
  ultimately show ?thesis using h1 h2 h3 h5 h6 by blast
qed

end
